theory Spec2Isabelle
  imports Complex_Main "HOL-Library.Word"
begin

unbundle bit_operations_syntax

section \<open>The point tracker worker of ftnoir\_tracker\_pt.cpp\<close>

text \<open>
  The development follows \<^verbatim>\<open>src/ftnoir_tracker_pt/ftnoir_tracker_pt.cpp\<close>.
  Single precision values (\<^verbatim>\<open>float\<close>, \<^verbatim>\<open>cv::Matx33f\<close>, \<^verbatim>\<open>cv::Vec3f\<close>) and the
  \<^verbatim>\<open>double\<close> output array are read as real numbers. The single precision sums and
  products and the angles of lines 163 to 182 are exact in the model; the quotients of lines
  190 to 192 are rounded to double precision, as the code rounds them.
\<close>

subsection \<open>Vectors, matrices and rigid transforms\<close>

text \<open>\<^verbatim>\<open>cv::Vec3f\<close>: three components, read with \<^verbatim>\<open>v[0]\<close>, \<^verbatim>\<open>v[1]\<close>, \<^verbatim>\<open>v[2]\<close>.\<close>

datatype Vec3f = Vec3f real real real

fun vec_at :: "Vec3f \<Rightarrow> nat \<Rightarrow> real" where
  "vec_at (Vec3f a b c) i = (if i = 0 then a else if i = 1 then b else c)"

text \<open>\<^verbatim>\<open>cv::Matx33f\<close>: nine entries given row by row, read with \<^verbatim>\<open>M(i,j)\<close>.\<close>

datatype Matx33f = Matx33f real real real  real real real  real real real

fun mat_at :: "Matx33f \<Rightarrow> nat \<Rightarrow> nat \<Rightarrow> real" where
  "mat_at (Matx33f a00 a01 a02 a10 a11 a12 a20 a21 a22) i j =
     (if i = 0 then (if j = 0 then a00 else if j = 1 then a01 else a02)
      else if i = 1 then (if j = 0 then a10 else if j = 1 then a11 else a12)
      else (if j = 0 then a20 else if j = 1 then a21 else a22))"

definition eye :: Matx33f where
  "eye = Matx33f 1 0 0  0 1 0  0 0 1"

text \<open>The matrix product, the transpose and the matrix-vector product of OpenCV.\<close>

definition mat_entry :: "Matx33f \<Rightarrow> Matx33f \<Rightarrow> nat \<Rightarrow> nat \<Rightarrow> real" where
  "mat_entry A B i j =
     mat_at A i 0 * mat_at B 0 j + mat_at A i 1 * mat_at B 1 j + mat_at A i 2 * mat_at B 2 j"

definition mat_mul :: "Matx33f \<Rightarrow> Matx33f \<Rightarrow> Matx33f" where
  "mat_mul A B =
     Matx33f (mat_entry A B 0 0) (mat_entry A B 0 1) (mat_entry A B 0 2)
             (mat_entry A B 1 0) (mat_entry A B 1 1) (mat_entry A B 1 2)
             (mat_entry A B 2 0) (mat_entry A B 2 1) (mat_entry A B 2 2)"

definition mat_t :: "Matx33f \<Rightarrow> Matx33f" where
  "mat_t A =
     Matx33f (mat_at A 0 0) (mat_at A 1 0) (mat_at A 2 0)
             (mat_at A 0 1) (mat_at A 1 1) (mat_at A 2 1)
             (mat_at A 0 2) (mat_at A 1 2) (mat_at A 2 2)"

definition mat_vec :: "Matx33f \<Rightarrow> Vec3f \<Rightarrow> Vec3f" where
  "mat_vec A v =
     Vec3f (mat_at A 0 0 * vec_at v 0 + mat_at A 0 1 * vec_at v 1 + mat_at A 0 2 * vec_at v 2)
           (mat_at A 1 0 * vec_at v 0 + mat_at A 1 1 * vec_at v 1 + mat_at A 1 2 * vec_at v 2)
           (mat_at A 2 0 * vec_at v 0 + mat_at A 2 1 * vec_at v 1 + mat_at A 2 2 * vec_at v 2)"

definition vec_add :: "Vec3f \<Rightarrow> Vec3f \<Rightarrow> Vec3f" where
  "vec_add u v = Vec3f (vec_at u 0 + vec_at v 0) (vec_at u 1 + vec_at v 1) (vec_at u 2 + vec_at v 2)"

text \<open>
  Modelled from the spec: the class \<^verbatim>\<open>Affine\<close> and its \<^verbatim>\<open>operator*\<close> are declared in
  the point tracker's header, which is not part of the sources at hand. The spec calls a pose
  "a rigid transform (3x3 rotation + 3-vector translation)" and has \<^verbatim>\<open>Tracker::data\<close>
  "compose the camera-to-model Pose with a fixed head-to-model offset translation": the
  product of two rigid transforms applies the right one first.
\<close>

datatype Affine = Affine (R_of: Matx33f) (t_of: Vec3f)

definition affine_mul :: "Affine \<Rightarrow> Affine \<Rightarrow> Affine" where
  "affine_mul X Y =
     Affine (mat_mul (R_of X) (R_of Y)) (vec_add (mat_vec (R_of X) (t_of Y)) (t_of X))"

text \<open>
  \<^verbatim>\<open>atan2\<close> of the C library on real numbers: the angle of the point \<open>(x, y)\<close> in
  \<open>(-pi, pi]\<close>, and 0 at the origin.
\<close>

definition atan2 :: "real \<Rightarrow> real \<Rightarrow> real" where
  "atan2 y x =
     (if 0 < x then arctan (y / x)
      else if x < 0 then (if 0 \<le> y then arctan (y / x) + pi else arctan (y / x) - pi)
      else if 0 < y then pi / 2
      else if y < 0 then - (pi / 2)
      else 0)"

subsection \<open>The output array and the change of basis\<close>

text \<open>The entries of the output array that \<^verbatim>\<open>Tracker::data\<close> writes.\<close>

datatype Axis = TX | TY | TZ | Yaw | Pitch | Roll

text \<open>The matrix \<^verbatim>\<open>R_EG\<close> of lines 173 to 175.\<close>

definition R_EG :: Matx33f where
  "R_EG = Matx33f 0 0 (- 1)
                  (- 1) 0 0
                  0 1 0"

subsection \<open>The collaborators and the members of the class\<close>

text \<open>A detection is a \<^verbatim>\<open>cv::Vec2f\<close>.\<close>

datatype Vec2f = Vec2f real real

text \<open>
  Modelled from the spec: the class \<^verbatim>\<open>PointModel\<close> and its constant \<^verbatim>\<open>N_POINTS\<close> are
  declared in a header that is not part of the sources at hand. The spec has the Point Model
  "derived from two 3D geometry vectors" and the required point count "fixed at 3".
\<close>

datatype PointModel = PointModel Vec3f Vec3f

definition N_POINTS :: nat where
  "N_POINTS = 3"

text \<open>
  The settings \<^verbatim>\<open>apply_inner\<close> reads, under the names the code reads them by. The slot
  \<^verbatim>\<open>new_settings\<close> holds a pointer to a settings object of the caller ("caller guarantees
  object lifetime"): an address, looked up in a store of settings objects.
\<close>

record settings =
  m01_x :: real
  m01_y :: real
  m01_z :: real
  m02_x :: real
  m02_y :: real
  m02_z :: real
  cam_index :: int
  cam_res_x :: int
  cam_res_y :: int
  cam_fps :: int
  threshold :: int
  threshold_secondary :: int
  min_point_size :: real
  max_point_size :: real
  t_MH_x :: real
  t_MH_y :: real
  t_MH_z :: real

type_synonym addr = nat

type_synonym store = "addr \<Rightarrow> settings"

text \<open>The four public members of the point extractor that \<^verbatim>\<open>apply_inner\<close> assigns.\<close>

record PointExtractor =
  threshold_val :: int
  threshold_secondary_val :: int
  min_size :: real
  max_size :: real

text \<open>
  The functions of the camera, the point extractor, the point tracker and OpenCV that the
  class calls are not part of the sources at hand: they are parameters. A camera of type
  \<open>'cam\<close> stands for the device with all it is going to deliver, so that \<^verbatim>\<open>get_frame\<close>
  is a function of it; \<open>mark\<close> is the body of the loop of lines 72 to 86, which draws a
  cross at one detection.
\<close>

record ('fr, 'cam, 'pt) Collab =
  set_device_index :: "int \<Rightarrow> 'cam \<Rightarrow> 'cam"
  set_res :: "int \<Rightarrow> int \<Rightarrow> 'cam \<Rightarrow> 'cam"
  set_fps :: "int \<Rightarrow> 'cam \<Rightarrow> 'cam"
  camera_start :: "'cam \<Rightarrow> 'cam"
  get_frame :: "real \<Rightarrow> 'cam \<Rightarrow> 'cam \<times> bool \<times> 'fr"
  frame_empty :: "'fr \<Rightarrow> bool"
  extract_points :: "PointExtractor \<Rightarrow> 'fr \<Rightarrow> Vec2f list \<times> 'fr"
  mark :: "Vec2f \<Rightarrow> 'fr \<Rightarrow> 'fr"
  track :: "Vec2f list \<Rightarrow> PointModel \<Rightarrow> 'pt \<Rightarrow> 'pt"
  pose :: "'pt \<Rightarrow> Affine"

text \<open>
  What a thread does to the mutex, to the shared pose and to the collaborators, in program
  order.
\<close>

datatype 'fr event =
    ApplySettings addr
  | GetFrame real
  | Lock
  | Unlock
  | ExtractPoints 'fr
  | Track "Vec2f list"
  | UpdateImage 'fr
  | ReadPose
  | ReadOffset
  | Store Axis

text \<open>
  The members of \<^verbatim>\<open>Tracker\<close>. \<open>commands\<close> is an \<^verbatim>\<open>int\<close> used as a set of bits; a null
  pointer is \<open>None\<close>; \<open>s\<close> is the address of the settings member that \<^verbatim>\<open>start_tracker\<close>
  applies. \<open>events\<close> is not a member: it records, in order, what the worker thread has done
  to the mutex and to its collaborators.
\<close>

record ('fr, 'cam, 'pt) Tracker =
  commands :: "32 word"
  video_widget :: "addr option"
  video_frame :: "addr option"
  new_settings :: "addr option"
  s :: addr
  model :: PointModel
  camera :: 'cam
  point_extractor :: PointExtractor
  point_tracker :: 'pt
  t_MH :: Vec3f
  events :: "'fr event list"

datatype error = NullDereference

subsection \<open>Constructor, commands and settings\<close>

text \<open>
  Lines 21 to 28. The constructor clears the commands and the three pointers; \<open>st\<close> holds
  the other members as their own constructors leave them. The worker has done nothing yet.
\<close>

definition Tracker_new :: "('fr, 'cam, 'pt) Tracker \<Rightarrow> ('fr, 'cam, 'pt) Tracker" where
  "Tracker_new st = st\<lparr>commands := 0, video_widget := None, video_frame := None,
                       new_settings := None, events := []\<rparr>"

text \<open>Lines 39 to 49.\<close>

definition set_command :: "32 word \<Rightarrow> ('fr, 'cam, 'pt) Tracker \<Rightarrow> ('fr, 'cam, 'pt) Tracker" where
  "set_command command st = st\<lparr>commands := commands st OR command\<rparr>"

definition reset_command :: "32 word \<Rightarrow> ('fr, 'cam, 'pt) Tracker \<Rightarrow> ('fr, 'cam, 'pt) Tracker" where
  "reset_command command st = st\<lparr>commands := commands st AND NOT command\<rparr>"

text \<open>\<^verbatim>\<open>Tracker::apply\<close>, lines 99 to 103.\<close>

definition tracker_apply :: "addr \<Rightarrow> ('fr, 'cam, 'pt) Tracker \<Rightarrow> ('fr, 'cam, 'pt) Tracker" where
  "tracker_apply a st = st\<lparr>new_settings := Some a\<rparr>"

text \<open>Lines 116 to 128: what \<^verbatim>\<open>apply_inner\<close> does with the settings it has taken.\<close>

definition configure ::
  "('fr, 'cam, 'pt) Collab \<Rightarrow> settings \<Rightarrow> ('fr, 'cam, 'pt) Tracker \<Rightarrow> ('fr, 'cam, 'pt) Tracker" where
  "configure C c st =
     (let M01 = Vec3f (m01_x c) (m01_y c) (m01_z c);
          M02 = Vec3f (m02_x c) (m02_y c) (m02_z c);
          cam1 = set_device_index C (cam_index c) (camera st);
          cam2 = set_res C (cam_res_x c) (cam_res_y c) cam1;
          cam3 = set_fps C (cam_fps c) cam2
      in st\<lparr>model := PointModel M01 M02,
            camera := cam3,
            point_extractor := (point_extractor st)\<lparr>
               threshold_val := threshold c,
               threshold_secondary_val := threshold_secondary c,
               min_size := min_point_size c,
               max_size := max_point_size c\<rparr>,
            t_MH := Vec3f (t_MH_x c) (t_MH_y c) (t_MH_z c)\<rparr>)"

text \<open>
  \<^verbatim>\<open>Tracker::apply_inner\<close>, lines 105 to 130: the slot is exchanged with the null pointer
  in one atomic step; nothing else happens when it was empty.
\<close>

definition apply_inner ::
  "('fr, 'cam, 'pt) Collab \<Rightarrow> store \<Rightarrow> ('fr, 'cam, 'pt) Tracker \<Rightarrow> ('fr, 'cam, 'pt) Tracker" where
  "apply_inner C \<sigma> st =
     (let tmp = new_settings st;
          st1 = st\<lparr>new_settings := None\<rparr>
      in case tmp of
           None \<Rightarrow> st1
         | Some a \<Rightarrow> configure C (\<sigma> a) (st1\<lparr>events := events st1 @ [ApplySettings a]\<rparr>))"

subsection \<open>Division in double precision\<close>

text \<open>
  Lines 190 to 192 divide a \<^verbatim>\<open>float\<close> by the \<^verbatim>\<open>double\<close> constant \<^verbatim>\<open>10.0\<close>: the
  \<^verbatim>\<open>float\<close> is converted to \<^verbatim>\<open>double\<close>, which changes nothing, and the quotient is the
  exact one rounded to the nearest \<^verbatim>\<open>double\<close>, the even one of two that are equally near.
  A \<^verbatim>\<open>double\<close> has 53 significant bits and exponents from \<open>- 1022\<close>: next to a real \<open>x\<close>
  with \<open>pow2 e \<le> \<bar>x\<bar>\<close> and \<open>\<bar>x\<bar> < pow2 (e + 1)\<close> the doubles are the multiples of
  \<open>pow2 (e - 52)\<close>, and the multiples of \<open>pow2 (- 1074)\<close> when \<open>e < - 1022\<close>. A quotient of a
  \<^verbatim>\<open>float\<close> by 10 is below \<open>pow2 125\<close>, so the upper end of the range of \<^verbatim>\<open>double\<close> is
  never reached and is not modelled.
\<close>

definition pow2 :: "int \<Rightarrow> real" where
  "pow2 e = (if 0 \<le> e then 2 ^ nat e else 1 / 2 ^ nat (- e))"

definition ilog2 :: "real \<Rightarrow> int" where
  "ilog2 x = \<lfloor>log 2 \<bar>x\<bar>\<rfloor>"

text \<open>The nearest integer, the even one of two that are equally near.\<close>

definition rne :: "real \<Rightarrow> int" where
  "rne y =
     (let f = \<lfloor>y\<rfloor>; r = y - of_int f
      in if r < 1 / 2 then f else if 1 / 2 < r then f + 1 else if even f then f else f + 1)"

text \<open>The distance between the doubles next to \<open>x\<close>.\<close>

definition ulp_double :: "real \<Rightarrow> real" where
  "ulp_double x = pow2 (max (ilog2 x) (- 1022) - 52)"

definition round_double :: "real \<Rightarrow> real" where
  "round_double x = (if x = 0 then 0 else of_int (rne (x / ulp_double x)) * ulp_double x)"

definition div_double :: "real \<Rightarrow> real \<Rightarrow> real" where
  "div_double a b = round_double (a / b)"

text \<open>A real number that is a \<^verbatim>\<open>double\<close>: 0, or a multiple of the distance between doubles there.\<close>

definition double_value :: "real \<Rightarrow> bool" where
  "double_value x = (x = 0 \<or> of_int \<lfloor>x / ulp_double x\<rfloor> = x / ulp_double x)"

subsection \<open>Tracker::data\<close>

text \<open>
  \<^verbatim>\<open>Tracker::data\<close>, lines 160 to 193. The constant \<^verbatim>\<open>rad2deg\<close> is declared in the
  header and is a parameter here; \<open>d\<close> is the caller's array, of which six entries are
  overwritten.
\<close>

definition data ::
  "real \<Rightarrow> ('fr, 'cam, 'pt) Collab \<Rightarrow> ('fr, 'cam, 'pt) Tracker \<Rightarrow> (Axis \<Rightarrow> real) \<Rightarrow> (Axis \<Rightarrow> real)" where
  "data rad2deg C st d =
     (let X_CM = pose C (point_tracker st);
          X_MH = Affine eye (t_MH st);
          X_GH = affine_mul X_CM X_MH;
          R = R_of X_GH;
          t = t_of X_GH;
          R = mat_mul (mat_mul R_EG R) (mat_t R_EG);
          beta = atan2 (- mat_at R 2 0) (sqrt (mat_at R 2 1 * mat_at R 2 1 + mat_at R 2 2 * mat_at R 2 2));
          alpha = atan2 (mat_at R 1 0) (mat_at R 0 0);
          gamma = atan2 (mat_at R 2 1) (mat_at R 2 2)
      in d(Yaw := rad2deg * alpha,
           Pitch := - rad2deg * beta,
           Roll := rad2deg * gamma,
           TX := div_double (vec_at t 0) 10,
           TY := div_double (vec_at t 1) 10,
           TZ := div_double (vec_at t 2) 10))"

text \<open>
  The change of basis in the words of the specification: the first output axis is the
  third camera axis reversed, the second output axis is the first camera axis reversed, and
  the third output axis is the second camera axis. \<open>matrix_of f\<close> is the matrix of a linear
  map \<open>f\<close>: its columns are the images of the three unit vectors.
\<close>

definition spec_axes :: "Vec3f \<Rightarrow> Vec3f" where
  "spec_axes v = Vec3f (- vec_at v 2) (- vec_at v 0) (vec_at v 1)"

definition matrix_of :: "(Vec3f \<Rightarrow> Vec3f) \<Rightarrow> Matx33f" where
  "matrix_of f =
     Matx33f (vec_at (f (Vec3f 1 0 0)) 0) (vec_at (f (Vec3f 0 1 0)) 0) (vec_at (f (Vec3f 0 0 1)) 0)
             (vec_at (f (Vec3f 1 0 0)) 1) (vec_at (f (Vec3f 0 1 0)) 1) (vec_at (f (Vec3f 0 0 1)) 1)
             (vec_at (f (Vec3f 1 0 0)) 2) (vec_at (f (Vec3f 0 1 0)) 2) (vec_at (f (Vec3f 0 0 1)) 2)"

subsection \<open>Tracker::run\<close>

text \<open>
  Lines 69 to 90, the block entered with a frame: the mutex is held from line 69 to the end
  of the block.
\<close>

definition process_frame ::
  "('fr, 'cam, 'pt) Collab \<Rightarrow> 'fr \<Rightarrow> ('fr, 'cam, 'pt) Tracker \<Rightarrow> ('fr, 'cam, 'pt) Tracker" where
  "process_frame C fr st =
     (let (points, fr1) = extract_points C (point_extractor st) fr;
          fr2 = foldl (\<lambda>f p. mark C p f) fr1 points;
          st1 = st\<lparr>events := events st @ [Lock, ExtractPoints fr]\<rparr>;
          st2 = (if length points = N_POINTS
                 then st1\<lparr>point_tracker := track C points (model st1) (point_tracker st1),
                          events := events st1 @ [Track points]\<rparr>
                 else st1)
      in st2\<lparr>events := events st2 @ [UpdateImage fr2, Unlock]\<rparr>)"

text \<open>
  Lines 61 to 90, one pass through the body of the loop; \<open>dt\<close> is what the timer gives at
  line 62.
\<close>

definition iteration ::
  "('fr, 'cam, 'pt) Collab \<Rightarrow> store \<Rightarrow> real \<Rightarrow> ('fr, 'cam, 'pt) Tracker \<Rightarrow> ('fr, 'cam, 'pt) Tracker" where
  "iteration C \<sigma> dt st =
     (let st1 = apply_inner C \<sigma> st;
          (cam, new_frame, fr) = get_frame C dt (camera st1);
          st2 = st1\<lparr>camera := cam, events := events st1 @ [GetFrame dt]\<rparr>
      in if new_frame \<and> \<not> frame_empty C fr then process_frame C fr st2 else st2)"

text \<open>
  The calls of the owner thread that change what the worker reads: \<^verbatim>\<open>set_command\<close>,
  \<^verbatim>\<open>reset_command\<close> and \<^verbatim>\<open>apply\<close>.
\<close>

datatype call = SetCommand "32 word" | ResetCommand "32 word" | Apply addr

fun owner :: "call \<Rightarrow> ('fr, 'cam, 'pt) Tracker \<Rightarrow> ('fr, 'cam, 'pt) Tracker" where
  "owner (SetCommand c) st = set_command c st"
| "owner (ResetCommand c) st = reset_command c st"
| "owner (Apply a) st = tracker_apply a st"

definition owner_calls :: "call list \<Rightarrow> ('fr, 'cam, 'pt) Tracker \<Rightarrow> ('fr, 'cam, 'pt) Tracker" where
  "owner_calls cs st = foldl (\<lambda>st c. owner c st) st cs"

text \<open>
  What the worker cannot know of one pass: the reading of the timer, and the calls of the
  owner thread that arrive after the test of line 59 and before the next one. The worker
  looks at \<open>commands\<close> at line 59 only and at the slot at line 110 only, so the calls of one
  pass are taken to arrive at its end; a call that arrives between the test and line 110 is
  the last call of the pass before.
\<close>

record Round =
  elapsed :: real
  calls :: "call list"

definition round ::
  "('fr, 'cam, 'pt) Collab \<Rightarrow> store \<Rightarrow> ('fr, 'cam, 'pt) Tracker \<Rightarrow> Round \<Rightarrow> ('fr, 'cam, 'pt) Tracker" where
  "round C \<sigma> st r = owner_calls (calls r) (iteration C \<sigma> (elapsed r) st)"

text \<open>
  \<^verbatim>\<open>Tracker::run\<close>, lines 59 to 96, with the value of \<^verbatim>\<open>ABORT\<close> (declared in the header)
  as a parameter. The loop has no bound of its own: the list of rounds is all that is known
  of the future, and the result is \<open>None\<close> when the list ends with the loop still running.
\<close>

fun run ::
  "32 word \<Rightarrow> ('fr, 'cam, 'pt) Collab \<Rightarrow> store \<Rightarrow> ('fr, 'cam, 'pt) Tracker \<Rightarrow> Round list
     \<Rightarrow> ('fr, 'cam, 'pt) Tracker option" where
  "run ABORT C \<sigma> st [] = (if commands st AND ABORT = 0 then None else Some st)"
| "run ABORT C \<sigma> st (r # rs) =
     (if commands st AND ABORT = 0 then run ABORT C \<sigma> (round C \<sigma> st r) rs else Some st)"

subsection \<open>Start and end of a tracker\<close>

text \<open>
  \<^verbatim>\<open>Tracker::start_tracker\<close>, lines 132 to 147. Line 135 dereferences the pointer it has
  just stored. The thread that line 146 starts is \<open>run\<close>.
\<close>

definition start_tracker ::
  "('fr, 'cam, 'pt) Collab \<Rightarrow> store \<Rightarrow> addr option \<Rightarrow> ('fr, 'cam, 'pt) Tracker
     \<Rightarrow> error + ('fr, 'cam, 'pt) Tracker" where
  "start_tracker C \<sigma> parent_window st =
     (let st1 = st\<lparr>video_frame := parent_window\<rparr>
      in case video_frame st1 of
           None \<Rightarrow> Inl NullDereference
         | Some w \<Rightarrow>
             (let st2 = st1\<lparr>video_widget := Some w\<rparr>;
                  st3 = apply_inner C \<sigma> (tracker_apply (s st2) st2)
              in Inr (st3\<lparr>camera := camera_start C (camera st3)\<rparr>)))"

text \<open>
  \<^verbatim>\<open>Tracker::~Tracker\<close>, lines 30 to 37, with the value of \<^verbatim>\<open>ABORT\<close> as a parameter.
  Deleting a null \<^verbatim>\<open>video_widget\<close> does nothing; line 36 dereferences \<^verbatim>\<open>video_frame\<close>.
\<close>

definition destroy ::
  "32 word \<Rightarrow> ('fr, 'cam, 'pt) Tracker \<Rightarrow> error + ('fr, 'cam, 'pt) Tracker" where
  "destroy ABORT st =
     (let st1 = set_command ABORT st;
          st2 = st1\<lparr>video_widget := None\<rparr>
      in case video_frame st2 of
           None \<Rightarrow> Inl NullDereference
         | Some w \<Rightarrow> Inr st2)"

text \<open>\<^verbatim>\<open>Tracker::StopTracker\<close>, lines 150 to 153, with the value of \<^verbatim>\<open>PAUSE\<close> as a parameter.\<close>

definition StopTracker :: "32 word \<Rightarrow> ('fr, 'cam, 'pt) Tracker \<Rightarrow> ('fr, 'cam, 'pt) Tracker" where
  "StopTracker PAUSE st = set_command PAUSE st"

subsection \<open>The mutex\<close>

text \<open>
  What \<^verbatim>\<open>Tracker::data\<close> does to the shared state and to the mutex, in program order:
  the pose is read at line 163 and the offset at line 165, the mutex is taken at line 184,
  the six entries of the caller's array are stored at lines 186 to 192, and the mutex is
  released when the function returns.
\<close>

definition data_events :: "'fr event list" where
  "data_events =
     [ReadPose, ReadOffset, Lock,
      Store Yaw, Store Pitch, Store Roll, Store TX, Store TY, Store TZ, Unlock]"

text \<open>
  The mutex is recursive (line 22): it is free, or owned by one thread that has taken it a
  number of times. A step of a thread is \<open>None\<close> when the thread cannot take it: it has to
  wait for the mutex, or releases what it does not own.
\<close>

datatype thread = Worker | Reader

type_synonym mutex = "(thread \<times> nat) option"

fun mutex_step :: "thread \<Rightarrow> 'fr event \<Rightarrow> mutex \<Rightarrow> mutex option" where
  "mutex_step t Lock None = Some (Some (t, 1))"
| "mutex_step t Lock (Some (u, n)) = (if u = t then Some (Some (t, Suc n)) else None)"
| "mutex_step t Unlock None = None"
| "mutex_step t Unlock (Some (u, n)) =
     (if u = t then Some (if n \<le> 1 then None else Some (t, n - 1)) else None)"
| "mutex_step t e m = Some m"

text \<open>
  Two threads under a schedule: the worker runs the events \<open>ws\<close>, the reader the events
  \<open>rs\<close>, and each step is recorded with the state of the mutex it was taken in.
\<close>

fun exec ::
  "thread list \<Rightarrow> 'fr event list \<Rightarrow> 'fr event list \<Rightarrow> mutex
     \<Rightarrow> (thread \<times> 'fr event \<times> mutex) list option" where
  "exec [] ws rs m = Some []"
| "exec (Worker # ts) (e # ws) rs m =
     (case mutex_step Worker e m of
        None \<Rightarrow> None
      | Some m' \<Rightarrow> map_option ((#) (Worker, e, m)) (exec ts ws rs m'))"
| "exec (Reader # ts) ws (e # rs) m =
     (case mutex_step Reader e m of
        None \<Rightarrow> None
      | Some m' \<Rightarrow> map_option ((#) (Reader, e, m)) (exec ts ws rs m'))"
| "exec (t # ts) ws rs m = None"

text \<open>An access to the pose: the read of \<^verbatim>\<open>data\<close>, the update of \<^verbatim>\<open>track\<close>.\<close>

fun pose_access :: "'fr event \<Rightarrow> bool" where
  "pose_access ReadPose = True"
| "pose_access (Track ps) = True"
| "pose_access e = False"

text \<open>
  Every access to the pose in a list of events of one thread is made with the mutex held,
  \<open>n\<close> being the number of times the thread holds it at the start.
\<close>

fun pose_guarded :: "nat \<Rightarrow> 'fr event list \<Rightarrow> bool" where
  "pose_guarded n [] = True"
| "pose_guarded n (Lock # es) = pose_guarded (Suc n) es"
| "pose_guarded n (Unlock # es) = pose_guarded (n - 1) es"
| "pose_guarded n (e # es) = ((if pose_access e then 0 < n else True) \<and> pose_guarded n es)"

text \<open>The number of times a thread holds the mutex after a list of its events.\<close>

fun held :: "nat \<Rightarrow> 'fr event list \<Rightarrow> nat" where
  "held n [] = n"
| "held n (Lock # es) = held (Suc n) es"
| "held n (Unlock # es) = held (n - 1) es"
| "held n (e # es) = held n es"

subsection \<open>Runs that differ in PAUSE only\<close>

text \<open>The calls that set or reset the bits \<open>P\<close>, and a round without them.\<close>

fun on_bits :: "32 word \<Rightarrow> call \<Rightarrow> bool" where
  "on_bits P (SetCommand c) = (c = P)"
| "on_bits P (ResetCommand c) = (c = P)"
| "on_bits P (Apply a) = False"

definition without_calls :: "32 word \<Rightarrow> Round \<Rightarrow> Round" where
  "without_calls P r = r\<lparr>calls := filter (\<lambda>c. \<not> on_bits P c) (calls r)\<rparr>"

subsection \<open>A small tracker\<close>

text \<open>
  Collaborators to run the definitions on: a frame is a number, the number of detections in
  it, and the frame 0 is empty; a camera is the list of the frames it is going to deliver;
  the point tracker is the pose it has computed, and tracking sets its translation to
  \<open>(10, 20, 30)\<close>.
\<close>

definition toy :: "(nat, nat list, Affine) Collab" where
  "toy = \<lparr>set_device_index = (\<lambda>i cam. cam),
          set_res = (\<lambda>w h cam. cam),
          set_fps = (\<lambda>f cam. cam),
          camera_start = (\<lambda>cam. cam),
          get_frame = (\<lambda>dt cam. case cam of [] \<Rightarrow> ([], False, 0) | f # fs \<Rightarrow> (fs, True, f)),
          frame_empty = (\<lambda>f. f = 0),
          extract_points = (\<lambda>e f. (map (\<lambda>i. Vec2f (real i) 0) [0..<f], f)),
          mark = (\<lambda>p f. f),
          track = (\<lambda>ps m X. Affine (R_of X) (Vec3f 10 20 30)),
          pose = (\<lambda>X. X)\<rparr>"

definition toy_settings :: "addr \<Rightarrow> settings" where
  "toy_settings a =
     \<lparr>m01_x = 0, m01_y = 40, m01_z = - 30, m02_x = 0, m02_y = - 70, m02_z = - 80,
      cam_index = 0, cam_res_x = 640, cam_res_y = 480, cam_fps = 30,
      threshold = 128, threshold_secondary = 128, min_point_size = 10, max_point_size = 50,
      t_MH_x = 10 * real a, t_MH_y = 0, t_MH_z = 0\<rparr>"

definition toy_tracker :: "nat list \<Rightarrow> (nat, nat list, Affine) Tracker" where
  "toy_tracker cam =
     Tracker_new \<lparr>commands = 0, video_widget = None, video_frame = None, new_settings = None,
       s = 0, model = PointModel (Vec3f 0 0 0) (Vec3f 0 0 0), camera = cam,
       point_extractor = \<lparr>threshold_val = 0, threshold_secondary_val = 0, min_size = 0, max_size = 0\<rparr>,
       point_tracker = Affine eye (Vec3f 0 0 0), t_MH = Vec3f 0 0 0, events = []\<rparr>"

definition zeros :: "Axis \<Rightarrow> real" where
  "zeros a = 0"

section \<open>Properties\<close>

subsection \<open>The pose as angles\<close>

lemma matrix_of_spec_axes: "matrix_of spec_axes = R_EG"
  by (simp add: matrix_of_def spec_axes_def R_EG_def)

lemma R_EG_axes: "mat_vec R_EG v = spec_axes v"
  by (cases v) (simp add: mat_vec_def spec_axes_def R_EG_def)

lemma mat_mul_eye: "mat_mul A eye = A"
  by (cases A) (simp add: mat_mul_def mat_entry_def eye_def)

lemma compose_offset:
  "affine_mul X (Affine eye t) = Affine (R_of X) (vec_add (mat_vec (R_of X) t) (t_of X))"
  by (simp add: affine_mul_def mat_mul_eye)

lemma atan2_0_1: "atan2 0 1 = 0"
  by (simp add: atan2_def)

lemma to_E_eye: "mat_mul (mat_mul R_EG eye) (mat_t R_EG) = eye"
  by (simp add: mat_mul_def mat_entry_def mat_t_def R_EG_def eye_def)

text \<open>
  Claim C1. For every stored pose and every head-to-model offset, \<^verbatim>\<open>Tracker::data\<close>
  composes the pose with the offset, conjugates the rotation of the result with the matrix
  \<open>E\<close> of the change of basis (first output axis: third camera axis reversed; second: first
  camera axis reversed; third: second camera axis), \<open>R' = E R E\<^sup>t\<close>, and stores
  yaw \<open>atan2 R'(1,0) R'(0,0)\<close>, pitch \<open>- atan2 (- R'(2,0)) (sqrt (R'(2,1)\<^sup>2 + R'(2,2)\<^sup>2))\<close> and
  roll \<open>atan2 R'(2,1) R'(2,2)\<close>, each multiplied by \<^verbatim>\<open>rad2deg\<close>.
\<close>

theorem data_angles:
  "let X = affine_mul (pose C (point_tracker st)) (Affine eye (t_MH st));
       E = matrix_of spec_axes;
       R' = mat_mul (mat_mul E (R_of X)) (mat_t E)
   in data rad2deg C st d Yaw = rad2deg * atan2 (mat_at R' 1 0) (mat_at R' 0 0) \<and>
      data rad2deg C st d Pitch =
        rad2deg * - atan2 (- mat_at R' 2 0) (sqrt ((mat_at R' 2 1)\<^sup>2 + (mat_at R' 2 2)\<^sup>2)) \<and>
      data rad2deg C st d Roll = rad2deg * atan2 (mat_at R' 2 1) (mat_at R' 2 2)"
  by (simp add: data_def Let_def matrix_of_spec_axes power2_eq_square)

lemma pow2_powr: "pow2 e = 2 powr (of_int e)"
  by (simp add: pow2_def powr_real_of_int inverse_eq_divide)

lemma pow2_pos: "0 < pow2 e"
  by (simp add: pow2_powr)

lemma ilog2I: "x \<noteq> 0 \<Longrightarrow> pow2 e \<le> \<bar>x\<bar> \<Longrightarrow> \<bar>x\<bar> < pow2 (e + 1) \<Longrightarrow> ilog2 x = e"
  unfolding ilog2_def pow2_powr by (subst floor_log_eq_powr_iff) simp_all

lemma rne_error: "\<bar>of_int (rne y) - y\<bar> \<le> 1 / 2"
  unfolding rne_def Let_def by (auto; linarith)

lemma rne_of_int: "rne (of_int n) = n"
  by (simp add: rne_def)

lemma round_double_0: "round_double 0 = 0"
  by (simp add: round_double_def)

lemma round_double_nearest: "\<bar>round_double x - x\<bar> \<le> ulp_double x / 2"
proof (cases "x = 0")
  case True
  then show ?thesis using pow2_pos [of "max (ilog2 0) (- 1022) - 52"]
    by (simp add: round_double_def ulp_double_def)
next
  case False
  let ?u = "ulp_double x"
  have u: "0 < ?u" by (simp add: ulp_double_def pow2_pos)
  have "round_double x - x = (of_int (rne (x / ?u)) - x / ?u) * ?u"
    using u False by (simp add: round_double_def field_simps)
  then have "\<bar>round_double x - x\<bar> = \<bar>of_int (rne (x / ?u)) - x / ?u\<bar> * ?u"
    using u by (simp add: abs_mult)
  also have "\<dots> \<le> 1 / 2 * ?u"
    using rne_error [of "x / ?u"] u by (intro mult_right_mono) simp_all
  finally show ?thesis by simp
qed

lemma round_double_exact: "double_value x \<Longrightarrow> round_double x = x"
proof (cases "x = 0")
  case True
  then show ?thesis by (simp add: round_double_def)
next
  case False
  assume "double_value x"
  with False have e: "of_int \<lfloor>x / ulp_double x\<rfloor> = x / ulp_double x"
    by (simp add: double_value_def)
  have u: "0 < ulp_double x" by (simp add: ulp_double_def pow2_pos)
  have "rne (x / ulp_double x) = \<lfloor>x / ulp_double x\<rfloor>"
    by (subst e [symmetric]) (rule rne_of_int)
  then have "round_double x = of_int \<lfloor>x / ulp_double x\<rfloor> * ulp_double x"
    using False by (simp add: round_double_def)
  also have "\<dots> = x" unfolding e using u by simp
  finally show ?thesis .
qed

lemma round_double_rel:
  assumes "pow2 (- 1022) \<le> \<bar>x\<bar>"
  shows "\<bar>round_double x - x\<bar> \<le> \<bar>x\<bar> / 2 ^ 53"
proof -
  have x0: "x \<noteq> 0" using assms pow2_pos [of "- 1022"] by auto
  then have ax: "0 < \<bar>x\<bar>" by simp
  have "2 powr (- 1022) \<le> \<bar>x\<bar>" using assms by (simp add: pow2_powr)
  then have "- 1022 \<le> log 2 \<bar>x\<bar>"
    using ax by (simp add: le_log_iff)
  then have "- 1022 \<le> ilog2 x" unfolding ilog2_def by linarith
  then have u: "ulp_double x = pow2 (ilog2 x - 52)"
    by (simp add: ulp_double_def max_def)
  have "2 powr (of_int (ilog2 x)) \<le> \<bar>x\<bar>"
    using ax unfolding ilog2_def by (metis floor_log_eq_powr_iff one_less_numeral_iff semiring_norm(76))
  then have "pow2 (ilog2 x - 52) \<le> \<bar>x\<bar> / 2 ^ 52"
    by (simp add: pow2_powr powr_diff field_simps)
  then have "ulp_double x / 2 \<le> \<bar>x\<bar> / 2 ^ 53"
    unfolding u by simp
  with round_double_nearest [of x] show ?thesis by linarith
qed

lemma round_double_tenth: "round_double (1 / 10) = 3602879701896397 / 2 ^ 55"
proof -
  have e: "ilog2 (1 / 10) = - 4"
    by (rule ilog2I) (simp_all add: pow2_def)
  have u: "ulp_double (1 / 10) = 1 / 2 ^ 56"
    by (simp add: ulp_double_def e pow2_def)
  show ?thesis
    by (simp add: round_double_def u rne_def Let_def)
qed

lemma double_value_small:
  "double_value 2" "double_value 3" "double_value 5"
proof -
  have e: "ilog2 2 = 1" "ilog2 3 = 1" "ilog2 5 = 2"
    by (rule ilog2I; simp add: pow2_def)+
  have u: "ulp_double 2 = 1 / 2 ^ 51" "ulp_double 3 = 1 / 2 ^ 51" "ulp_double 5 = 1 / 2 ^ 50"
    by (simp_all add: ulp_double_def e pow2_def)
  show "double_value 2" "double_value 3" "double_value 5"
    by (simp_all add: double_value_def u)
qed

lemma div_double_0: "div_double 0 b = 0"
  by (simp add: div_double_def round_double_0)

lemma div_double_50: "div_double 50 10 = 5"
  using round_double_exact [OF double_value_small(3)] by (simp add: div_double_def)

lemma data_TX:
  "data k C st d TX
     = div_double (vec_at (vec_add (mat_vec (R_of (pose C (point_tracker st))) (t_MH st))
                                   (t_of (pose C (point_tracker st)))) 0) 10"
  by (simp add: data_def Let_def compose_offset)

text \<open>
  Claim C7 as it is written fails on "exactly": the code stores the quotient rounded to
  \<^verbatim>\<open>double\<close>, and a tenth of a \<^verbatim>\<open>float\<close> is seldom a \<^verbatim>\<open>double\<close>. With the translation
  \<open>(1, 2, 3)\<close> and no offset, \<^verbatim>\<open>Tracker::data\<close> stores \<open>3602879701896397 / 2 ^ 55\<close> for the
  first translation, which is not \<open>1 / 10\<close>.
\<close>

theorem tenth_not_exact_counterexample:
  "vec_at (t_of (affine_mul (pose toy (point_tracker ((toy_tracker [])\<lparr>point_tracker := Affine eye (Vec3f 1 2 3)\<rparr>)))
                            (Affine eye (t_MH ((toy_tracker [])\<lparr>point_tracker := Affine eye (Vec3f 1 2 3)\<rparr>))))) 0
     = 1 \<and>
   data 57 toy ((toy_tracker [])\<lparr>point_tracker := Affine eye (Vec3f 1 2 3)\<rparr>) zeros TX
     = 3602879701896397 / 2 ^ 55 \<and>
   data 57 toy ((toy_tracker [])\<lparr>point_tracker := Affine eye (Vec3f 1 2 3)\<rparr>) zeros TX \<noteq> 1 / 10"
proof -
  let ?st = "(toy_tracker [])\<lparr>point_tracker := Affine eye (Vec3f 1 2 3)\<rparr>"
  have t: "vec_add (mat_vec (R_of (pose toy (point_tracker ?st))) (t_MH ?st)) (t_of (pose toy (point_tracker ?st)))
      = Vec3f 1 2 3"
    by (simp add: toy_def toy_tracker_def Tracker_new_def mat_vec_def vec_add_def eye_def)
  have a: "vec_at (t_of (affine_mul (pose toy (point_tracker ?st)) (Affine eye (t_MH ?st)))) 0 = 1"
    unfolding compose_offset Affine.sel t by simp
  have b: "data 57 toy ?st zeros TX = 3602879701896397 / 2 ^ 55"
    unfolding data_TX t by (simp add: div_double_def round_double_tenth)
  have c: "(3602879701896397 :: real) / 2 ^ 55 \<noteq> 1 / 10"
    by simp
  from a b c show ?thesis
    by (simp only:) simp
qed

text \<open>
  Claim C7, amended. For every translation \<open>t\<close> of the composed pose, the three
  translations that \<^verbatim>\<open>Tracker::data\<close> stores are the components of \<open>t\<close> divided by 10 in
  double precision: each is the quotient rounded to the nearest \<^verbatim>\<open>double\<close>, it is at most
  half the distance between doubles away from the quotient, at most the quotient divided by
  \<open>2 ^ 53\<close> when the quotient is not below \<open>pow2 (- 1022)\<close>, and it is the quotient when the
  quotient is a \<^verbatim>\<open>double\<close>.
\<close>

theorem data_translation_rounded:
  "let t = t_of (affine_mul (pose C (point_tracker st)) (Affine eye (t_MH st)));
       q0 = vec_at t 0 / 10; q1 = vec_at t 1 / 10; q2 = vec_at t 2 / 10;
       tx = data rad2deg C st d TX; ty = data rad2deg C st d TY; tz = data rad2deg C st d TZ
   in tx = round_double q0 \<and> ty = round_double q1 \<and> tz = round_double q2 \<and>
      \<bar>tx - q0\<bar> \<le> ulp_double q0 / 2 \<and> \<bar>ty - q1\<bar> \<le> ulp_double q1 / 2 \<and>
      \<bar>tz - q2\<bar> \<le> ulp_double q2 / 2 \<and>
      (pow2 (- 1022) \<le> \<bar>q0\<bar> \<longrightarrow> \<bar>tx - q0\<bar> \<le> \<bar>q0\<bar> / 2 ^ 53) \<and>
      (pow2 (- 1022) \<le> \<bar>q1\<bar> \<longrightarrow> \<bar>ty - q1\<bar> \<le> \<bar>q1\<bar> / 2 ^ 53) \<and>
      (pow2 (- 1022) \<le> \<bar>q2\<bar> \<longrightarrow> \<bar>tz - q2\<bar> \<le> \<bar>q2\<bar> / 2 ^ 53) \<and>
      (double_value q0 \<longrightarrow> tx = q0) \<and> (double_value q1 \<longrightarrow> ty = q1) \<and>
      (double_value q2 \<longrightarrow> tz = q2)"
proof -
  let ?t = "t_of (affine_mul (pose C (point_tracker st)) (Affine eye (t_MH st)))"
  have x: "data rad2deg C st d TX = round_double (vec_at ?t 0 / 10)"
    and y: "data rad2deg C st d TY = round_double (vec_at ?t 1 / 10)"
    and z: "data rad2deg C st d TZ = round_double (vec_at ?t 2 / 10)"
    by (simp_all add: data_def Let_def div_double_def)
  show ?thesis
    unfolding Let_def x y z
    by (intro conjI impI;
        (rule refl | rule round_double_nearest | erule round_double_rel | erule round_double_exact))
qed

theorem data_translation_rounded_witness:
  "vec_at (t_of (affine_mul (pose toy (point_tracker ((toy_tracker [])\<lparr>point_tracker := Affine eye (Vec3f 50 20 30)\<rparr>)))
                            (Affine eye (t_MH ((toy_tracker [])\<lparr>point_tracker := Affine eye (Vec3f 50 20 30)\<rparr>))))) 0 / 10
     = 5 \<and>
   double_value 5 \<and> double_value 2 \<and> double_value 3 \<and>
   pow2 (- 1022) \<le> \<bar>5\<bar> \<and> pow2 (- 1022) \<le> \<bar>2\<bar> \<and> pow2 (- 1022) \<le> \<bar>3\<bar> \<and>
   data 57 toy ((toy_tracker [])\<lparr>point_tracker := Affine eye (Vec3f 50 20 30)\<rparr>) zeros TX = 5 \<and>
   data 57 toy ((toy_tracker [])\<lparr>point_tracker := Affine eye (Vec3f 50 20 30)\<rparr>) zeros TY = 2 \<and>
   data 57 toy ((toy_tracker [])\<lparr>point_tracker := Affine eye (Vec3f 50 20 30)\<rparr>) zeros TZ = 3 \<and>
   \<bar>data 57 toy ((toy_tracker [])\<lparr>point_tracker := Affine eye (Vec3f 50 20 30)\<rparr>) zeros TX - 5\<bar> \<le> \<bar>5\<bar> / 2 ^ 53"
proof -
  let ?st = "(toy_tracker [])\<lparr>point_tracker := Affine eye (Vec3f 50 20 30)\<rparr>"
  let ?t = "t_of (affine_mul (pose toy (point_tracker ?st)) (Affine eye (t_MH ?st)))"
  have t: "?t = Vec3f 50 20 30"
    unfolding compose_offset Affine.sel
    by (simp add: toy_def toy_tracker_def Tracker_new_def mat_vec_def vec_add_def eye_def)
  have q: "vec_at ?t 0 / 10 = 5" "vec_at ?t 1 / 10 = 2" "vec_at ?t 2 / 10 = 3"
    unfolding t by simp_all
  have p: "pow2 (- 1022) \<le> \<bar>5\<bar>" "pow2 (- 1022) \<le> \<bar>2\<bar>" "pow2 (- 1022) \<le> \<bar>3\<bar>"
    using power_le_one [of "1 / 2 :: real" 1022] by (simp_all add: pow2_def power_one_over)
  note T = data_translation_rounded [of toy ?st 57 zeros, unfolded Let_def q]
  from T double_value_small p have r:
    "data 57 toy ?st zeros TX = 5" "data 57 toy ?st zeros TY = 2" "data 57 toy ?st zeros TZ = 3"
    "\<bar>data 57 toy ?st zeros TX - 5\<bar> \<le> \<bar>5\<bar> / 2 ^ 53"
    by blast+
  from q(1) double_value_small p r show ?thesis
    by blast
qed

text \<open>
  Claim C8. Whatever the two vectors of the model, when the stored pose is the identity and
  the offset is the zero vector, \<^verbatim>\<open>Tracker::data\<close> stores 0 for the three angles and for
  the three translations; and whenever the conjugated rotation \<open>R'\<close> has \<open>R'(2,1) = 0\<close>,
  \<open>R'(2,2) = 1\<close>, \<open>R'(2,0) = 0\<close>, \<open>R'(1,0) = 0\<close> and \<open>R'(0,0) = 1\<close>, the three angles are 0.
\<close>

theorem identity_pose_zero:
  "(pose C (point_tracker st) = Affine eye (Vec3f 0 0 0) \<and> t_MH st = Vec3f 0 0 0 \<longrightarrow>
      data rad2deg C (st\<lparr>model := PointModel M01 M02\<rparr>) d
        = d(Yaw := 0, Pitch := 0, Roll := 0, TX := 0, TY := 0, TZ := 0)) \<and>
   (let R' = mat_mul (mat_mul R_EG (R_of (affine_mul (pose C (point_tracker st)) (Affine eye (t_MH st)))))
                     (mat_t R_EG)
    in mat_at R' 2 1 = 0 \<and> mat_at R' 2 2 = 1 \<and> mat_at R' 2 0 = 0 \<and> mat_at R' 1 0 = 0 \<and>
       mat_at R' 0 0 = 1 \<longrightarrow>
       data rad2deg C st d Yaw = 0 \<and> data rad2deg C st d Pitch = 0 \<and> data rad2deg C st d Roll = 0)"
proof (intro conjI impI)
  assume h: "pose C (point_tracker st) = Affine eye (Vec3f 0 0 0) \<and> t_MH st = Vec3f 0 0 0"
  have X: "affine_mul (Affine eye (Vec3f 0 0 0)) (Affine eye (Vec3f 0 0 0)) = Affine eye (Vec3f 0 0 0)"
    by (simp add: compose_offset mat_vec_def vec_add_def)
  show "data rad2deg C (st\<lparr>model := PointModel M01 M02\<rparr>) d
        = d(Yaw := 0, Pitch := 0, Roll := 0, TX := 0, TY := 0, TZ := 0)"
    using h by (simp add: data_def Let_def X to_E_eye) (simp add: eye_def atan2_0_1 div_double_0)
next
  show "let R' = mat_mul (mat_mul R_EG (R_of (affine_mul (pose C (point_tracker st)) (Affine eye (t_MH st)))))
                     (mat_t R_EG)
    in mat_at R' 2 1 = 0 \<and> mat_at R' 2 2 = 1 \<and> mat_at R' 2 0 = 0 \<and> mat_at R' 1 0 = 0 \<and>
       mat_at R' 0 0 = 1 \<longrightarrow>
       data rad2deg C st d Yaw = 0 \<and> data rad2deg C st d Pitch = 0 \<and> data rad2deg C st d Roll = 0"
    by (simp add: data_def Let_def atan2_0_1)
qed

theorem identity_pose_zero_witness:
  "pose toy (point_tracker (toy_tracker [])) = Affine eye (Vec3f 0 0 0) \<and>
   t_MH (toy_tracker []) = Vec3f 0 0 0 \<and>
   data 57 toy ((toy_tracker [])\<lparr>model := PointModel (Vec3f 0 40 (- 30)) (Vec3f 0 (- 70) (- 80))\<rparr>) zeros
     = zeros(Yaw := 0, Pitch := 0, Roll := 0, TX := 0, TY := 0, TZ := 0) \<and>
   (mat_at (mat_mul (mat_mul R_EG (R_of (affine_mul (pose toy (point_tracker (toy_tracker [])))
       (Affine eye (t_MH (toy_tracker [])))))) (mat_t R_EG)) 2 1 = 0 \<and>
    mat_at (mat_mul (mat_mul R_EG (R_of (affine_mul (pose toy (point_tracker (toy_tracker [])))
       (Affine eye (t_MH (toy_tracker [])))))) (mat_t R_EG)) 2 2 = 1 \<and>
    mat_at (mat_mul (mat_mul R_EG (R_of (affine_mul (pose toy (point_tracker (toy_tracker [])))
       (Affine eye (t_MH (toy_tracker [])))))) (mat_t R_EG)) 2 0 = 0 \<and>
    mat_at (mat_mul (mat_mul R_EG (R_of (affine_mul (pose toy (point_tracker (toy_tracker [])))
       (Affine eye (t_MH (toy_tracker [])))))) (mat_t R_EG)) 1 0 = 0 \<and>
    mat_at (mat_mul (mat_mul R_EG (R_of (affine_mul (pose toy (point_tracker (toy_tracker [])))
       (Affine eye (t_MH (toy_tracker [])))))) (mat_t R_EG)) 0 0 = 1) \<and>
   data 57 toy (toy_tracker []) zeros Yaw = 0 \<and>
   data 57 toy (toy_tracker []) zeros Pitch = 0 \<and>
   data 57 toy (toy_tracker []) zeros Roll = 0"
proof -
  have p: "pose toy (point_tracker (toy_tracker [])) = Affine eye (Vec3f 0 0 0)"
    by (simp add: toy_def toy_tracker_def Tracker_new_def)
  have t: "t_MH (toy_tracker []) = Vec3f 0 0 0"
    by (simp add: toy_tracker_def Tracker_new_def)
  have R: "mat_mul (mat_mul R_EG (R_of (affine_mul (Affine eye (Vec3f 0 0 0))
       (Affine eye (Vec3f 0 0 0))))) (mat_t R_EG) = eye"
    by (simp add: compose_offset to_E_eye)
  let ?R = "mat_mul (mat_mul R_EG (R_of (affine_mul (pose toy (point_tracker (toy_tracker [])))
       (Affine eye (t_MH (toy_tracker [])))))) (mat_t R_EG)"
  have RR: "?R = eye"
    by (simp only: p t R)
  have e: "mat_at ?R 2 1 = 0 \<and> mat_at ?R 2 2 = 1 \<and> mat_at ?R 2 0 = 0 \<and> mat_at ?R 1 0 = 0 \<and>
           mat_at ?R 0 0 = 1"
    unfolding RR by (simp add: eye_def)
  note T = identity_pose_zero [of toy "toy_tracker []" 57 "Vec3f 0 40 (- 30)" "Vec3f 0 (- 70) (- 80)" zeros]
  from T p t have one:
    "data 57 toy ((toy_tracker [])\<lparr>model := PointModel (Vec3f 0 40 (- 30)) (Vec3f 0 (- 70) (- 80))\<rparr>) zeros
     = zeros(Yaw := 0, Pitch := 0, Roll := 0, TX := 0, TY := 0, TZ := 0)"
    by blast
  from T e have two:
    "data 57 toy (toy_tracker []) zeros Yaw = 0 \<and>
     data 57 toy (toy_tracker []) zeros Pitch = 0 \<and>
     data 57 toy (toy_tracker []) zeros Roll = 0"
    unfolding Let_def by blast
  from p t one e two show ?thesis
    by blast
qed

subsection \<open>The settings slot\<close>

lemma configure_fields:
  "new_settings (configure C c st) = new_settings st"
  "events (configure C c st) = events st"
  "commands (configure C c st) = commands st"
  "video_frame (configure C c st) = video_frame st"
  "video_widget (configure C c st) = video_widget st"
  "point_tracker (configure C c st) = point_tracker st"
  "s (configure C c st) = s st"
  by (simp_all add: configure_def Let_def)

lemma apply_inner_None: "new_settings st = None \<Longrightarrow> apply_inner C \<sigma> st = st"
  by (simp add: apply_inner_def)

lemma apply_inner_Some:
  "new_settings st = Some a \<Longrightarrow>
     apply_inner C \<sigma> st
       = configure C (\<sigma> a) (st\<lparr>new_settings := None, events := events st @ [ApplySettings a]\<rparr>)"
  by (simp add: apply_inner_def)

lemma apply_inner_fields:
  "new_settings (apply_inner C \<sigma> st) = None"
  "commands (apply_inner C \<sigma> st) = commands st"
  "video_frame (apply_inner C \<sigma> st) = video_frame st"
  "video_widget (apply_inner C \<sigma> st) = video_widget st"
  "point_tracker (apply_inner C \<sigma> st) = point_tracker st"
  "s (apply_inner C \<sigma> st) = s st"
  by (simp_all add: apply_inner_def Let_def configure_fields split: option.split)

lemma owner_calls_Apply:
  "owner_calls (map Apply as @ [Apply a]) st = st\<lparr>new_settings := Some a\<rparr>"
  by (induction as arbitrary: st) (simp_all add: owner_calls_def tracker_apply_def)

text \<open>
  Claim C3. After any sequence of calls of \<^verbatim>\<open>Tracker::apply\<close>, the next
  \<^verbatim>\<open>Tracker::apply_inner\<close> applies the settings of the last call and of no other call: the
  result does not depend on the earlier calls, one application is recorded, the slot is empty
  afterwards, and a second \<^verbatim>\<open>apply_inner\<close> changes nothing.
\<close>

theorem last_writer_wins:
  "let st' = apply_inner C \<sigma> (owner_calls (map Apply (as @ [a])) st)
   in st' = configure C (\<sigma> a) (st\<lparr>new_settings := None, events := events st @ [ApplySettings a]\<rparr>) \<and>
      events st' = events st @ [ApplySettings a] \<and>
      new_settings st' = None \<and>
      apply_inner C \<sigma> st' = st'"
  by (simp add: Let_def owner_calls_Apply apply_inner_Some configure_fields apply_inner_None)

text \<open>
  Claim C6. When the slot is empty, \<^verbatim>\<open>Tracker::apply_inner\<close> changes nothing: the model,
  the camera, the point extractor and the head-to-model offset are as they were, and no
  application is recorded.
\<close>

theorem apply_inner_empty:
  "new_settings st = None \<Longrightarrow>
     apply_inner C \<sigma> st = st \<and>
     model (apply_inner C \<sigma> st) = model st \<and>
     camera (apply_inner C \<sigma> st) = camera st \<and>
     point_extractor (apply_inner C \<sigma> st) = point_extractor st \<and>
     t_MH (apply_inner C \<sigma> st) = t_MH st \<and>
     events (apply_inner C \<sigma> st) = events st"
  by (simp add: apply_inner_None)

theorem apply_inner_empty_witness:
  "new_settings (toy_tracker [3]) = None \<and>
   apply_inner toy toy_settings (toy_tracker [3]) = toy_tracker [3]"
  using apply_inner_empty [of "toy_tracker [3]" toy toy_settings]
  by (simp add: toy_tracker_def Tracker_new_def)

subsection \<open>Bits of the commands\<close>

lemma word_set_and: "(c OR A) AND A = (A :: 32 word)"
  by (auto simp add: bit_eq_iff bit_simps)

lemma word_or_disjoint: "P AND A = 0 \<Longrightarrow> (c OR P) AND A = c AND (A :: 32 word)"
  by (auto simp add: bit_eq_iff bit_simps)

lemma word_clear_disjoint: "P AND A = 0 \<Longrightarrow> (c AND NOT P) AND A = c AND (A :: 32 word)"
  by (auto simp add: bit_eq_iff bit_simps)

lemma word_or_clear: "c1 AND NOT P = c2 AND NOT P \<Longrightarrow> (c1 OR c) AND NOT P = (c2 OR c) AND NOT (P :: 32 word)"
  by (auto simp add: bit_eq_iff bit_simps)

lemma word_and_clear: "c1 AND NOT P = c2 AND NOT P \<Longrightarrow> (c1 AND NOT c) AND NOT P = (c2 AND NOT c) AND NOT (P :: 32 word)"
  by (auto simp add: bit_eq_iff bit_simps)

lemma word_or_self_clear: "(c OR P) AND NOT P = c AND NOT (P :: 32 word)"
  by (auto simp add: bit_eq_iff bit_simps)

lemma word_clear_twice: "(c AND NOT P) AND NOT P = c AND NOT (P :: 32 word)"
  by (auto simp add: bit_eq_iff bit_simps)

subsection \<open>The small tracker\<close>

lemma toy_apply_5:
  "apply_inner toy toy_settings (tracker_apply 5 (toy_tracker cam))
     = (toy_tracker cam)\<lparr>model := PointModel (Vec3f 0 40 (- 30)) (Vec3f 0 (- 70) (- 80)),
         point_extractor := \<lparr>threshold_val = 128, threshold_secondary_val = 128, min_size = 10, max_size = 50\<rparr>,
         t_MH := Vec3f 50 0 0, events := [ApplySettings 5]\<rparr>"
  by (simp add: apply_inner_def tracker_apply_def configure_def toy_def toy_settings_def toy_tracker_def
      Tracker_new_def Let_def)

lemma toy_fields:
  "camera (toy_tracker cam) = cam"
  "point_tracker (toy_tracker cam) = Affine eye (Vec3f 0 0 0)"
  "t_MH (toy_tracker cam) = Vec3f 0 0 0"
  "new_settings (toy_tracker cam) = None"
  "commands (toy_tracker cam) = 0"
  "events (toy_tracker cam) = []"
  "video_frame (toy_tracker cam) = None"
  by (simp_all add: toy_tracker_def Tracker_new_def)

lemma toy_collab:
  "get_frame toy dt (f # fs) = (fs, True, f)"
  "get_frame toy dt [] = ([], False, 0)"
  "frame_empty toy f = (f = 0)"
  "extract_points toy e 2 = ([Vec2f 0 0, Vec2f 1 0], 2)"
  "extract_points toy e 3 = ([Vec2f 0 0, Vec2f 1 0, Vec2f 2 0], 3)"
  "mark toy p f = f"
  "track toy ps m X = Affine (R_of X) (Vec3f 10 20 30)"
  "pose toy X = X"
  by (simp_all add: toy_def upt_rec)

subsection \<open>The loop\<close>

lemma process_frame_fields:
  "commands (process_frame C fr st) = commands st"
  "video_frame (process_frame C fr st) = video_frame st"
  "new_settings (process_frame C fr st) = new_settings st"
  "t_MH (process_frame C fr st) = t_MH st"
  by (simp_all add: process_frame_def Let_def split: prod.split)

lemma iteration_fields:
  "commands (iteration C \<sigma> dt st) = commands st"
  "video_frame (iteration C \<sigma> dt st) = video_frame st"
  "new_settings (iteration C \<sigma> dt st) = None"
  by (simp_all add: iteration_def Let_def process_frame_fields apply_inner_fields split: prod.split)

lemma owner_video_frame: "video_frame (owner c st) = video_frame st"
  by (cases c) (simp_all add: set_command_def reset_command_def tracker_apply_def)

lemma owner_calls_video_frame: "video_frame (owner_calls cs st) = video_frame st"
  by (induction cs arbitrary: st) (simp_all add: owner_calls_def owner_video_frame)

lemma owner_calls_Nil: "owner_calls [] st = st"
  by (simp add: owner_calls_def)

lemma owner_calls_Cons: "owner_calls (c # cs) st = owner_calls cs (owner c st)"
  by (simp add: owner_calls_def)

lemma owner_calls_append: "owner_calls (cs @ ds) st = owner_calls ds (owner_calls cs st)"
  by (simp add: owner_calls_def)

lemma round_video_frame: "video_frame (round C \<sigma> st r) = video_frame st"
  by (simp add: round_def owner_calls_video_frame iteration_fields)

lemma run_video_frame: "run ABORT C \<sigma> st rs = Some st' \<Longrightarrow> video_frame st' = video_frame st"
  by (induction rs arbitrary: st) (auto simp add: round_video_frame split: if_splits)

lemma run_exit_abort: "run ABORT C \<sigma> st rs = Some st' \<Longrightarrow> commands st' AND ABORT \<noteq> 0"
  by (induction rs arbitrary: st) (auto split: if_splits)

lemma run_aborted: "commands st AND ABORT \<noteq> 0 \<Longrightarrow> run ABORT C \<sigma> st rs = Some st"
  by (cases rs) simp_all

lemma round_sets_abort:
  "calls r = cs @ [SetCommand ABORT] \<Longrightarrow> commands (round C \<sigma> st r) AND ABORT = ABORT"
  by (simp add: round_def owner_calls_append owner_calls_Cons owner_calls_Nil set_command_def word_set_and)

lemma run_returns:
  "ABORT \<noteq> 0 \<Longrightarrow> calls r = cs @ [SetCommand ABORT] \<Longrightarrow> \<exists>st'. run ABORT C \<sigma> st (pre @ r # post) = Some st'"
proof (induction pre arbitrary: st)
  case Nil
  then show ?case
    by (cases "commands st AND ABORT = 0") (simp_all add: run_aborted round_sets_abort)
next
  case (Cons p pre)
  then show ?case
    by (cases "commands st AND ABORT = 0") simp_all
qed


text \<open>
  Claim C5. The loop of \<^verbatim>\<open>Tracker::run\<close> goes on while the bits of \<^verbatim>\<open>ABORT\<close> are
  clear in \<open>commands\<close> and stops only when they are not: with them clear it makes another
  pass, also when \<^verbatim>\<open>PAUSE\<close> has been set; with one of them set the next test ends the
  loop, with no further pass; a loop that has ended has seen the bit; a pass during which
  the bit is set is the last one; and the loop returns once the owner has set \<^verbatim>\<open>ABORT\<close>.
\<close>


theorem run_until_abort:
  "(commands st AND ABORT = 0 \<longrightarrow>
      run ABORT C \<sigma> st (r # rs) = run ABORT C \<sigma> (round C \<sigma> st r) rs) \<and>
   (commands st AND ABORT = 0 \<and> PAUSE AND ABORT = 0 \<longrightarrow>
      run ABORT C \<sigma> (set_command PAUSE st) (r # rs)
        = run ABORT C \<sigma> (round C \<sigma> (set_command PAUSE st) r) rs) \<and>
   (commands st AND ABORT \<noteq> 0 \<longrightarrow> run ABORT C \<sigma> st rs = Some st) \<and>
   (run ABORT C \<sigma> st rs = Some st' \<longrightarrow> commands st' AND ABORT \<noteq> 0) \<and>
   (commands st AND ABORT = 0 \<and> commands (round C \<sigma> st r) AND ABORT \<noteq> 0 \<longrightarrow>
      run ABORT C \<sigma> st (r # rs) = Some (round C \<sigma> st r)) \<and>
   (ABORT \<noteq> 0 \<and> calls r = cs @ [SetCommand ABORT] \<longrightarrow>
      (\<exists>st''. run ABORT C \<sigma> st (pre @ r # post) = Some st''))"
proof (intro conjI impI)
  assume "commands st AND ABORT = 0 \<and> PAUSE AND ABORT = 0"
  then have "commands (set_command PAUSE st) AND ABORT = 0"
    by (simp add: set_command_def word_or_disjoint)
  then show "run ABORT C \<sigma> (set_command PAUSE st) (r # rs)
        = run ABORT C \<sigma> (round C \<sigma> (set_command PAUSE st) r) rs"
    by simp
qed (auto simp add: run_aborted run_exit_abort run_returns)


theorem run_until_abort_witness:
  "commands (toy_tracker [3]) AND 1 = 0 \<and> (2 :: 32 word) AND 1 = 0 \<and> (1 :: 32 word) \<noteq> 0 \<and>
   run 1 toy toy_settings (toy_tracker [3]) [\<lparr>elapsed = 0, calls = []\<rparr>]
     = run 1 toy toy_settings (round toy toy_settings (toy_tracker [3]) \<lparr>elapsed = 0, calls = []\<rparr>) [] \<and>
   run 1 toy toy_settings (set_command 2 (toy_tracker [3])) [\<lparr>elapsed = 0, calls = []\<rparr>]
     = run 1 toy toy_settings
         (round toy toy_settings (set_command 2 (toy_tracker [3])) \<lparr>elapsed = 0, calls = []\<rparr>) [] \<and>
   commands (set_command 1 (toy_tracker [3])) AND 1 \<noteq> 0 \<and>
   run 1 toy toy_settings (set_command 1 (toy_tracker [3])) [\<lparr>elapsed = 0, calls = []\<rparr>]
     = Some (set_command 1 (toy_tracker [3])) \<and>
   commands (round toy toy_settings (toy_tracker [3]) \<lparr>elapsed = 0, calls = [SetCommand 1]\<rparr>) AND 1 \<noteq> 0 \<and>
   run 1 toy toy_settings (toy_tracker [3]) [\<lparr>elapsed = 0, calls = [SetCommand 1]\<rparr>, \<lparr>elapsed = 0, calls = []\<rparr>]
     = Some (round toy toy_settings (toy_tracker [3]) \<lparr>elapsed = 0, calls = [SetCommand 1]\<rparr>) \<and>
   calls \<lparr>elapsed = 0, calls = [SetCommand 1]\<rparr> = [] @ [SetCommand 1] \<and>
   (\<exists>st. run 1 toy toy_settings (toy_tracker [3])
      ([\<lparr>elapsed = 0, calls = []\<rparr>] @ \<lparr>elapsed = 0, calls = [SetCommand 1]\<rparr> # [\<lparr>elapsed = 0, calls = []\<rparr>])
      = Some st)"
proof -
  let ?idle = "\<lparr>elapsed = 0, calls = []\<rparr>" and ?stop = "\<lparr>elapsed = 0, calls = [SetCommand 1]\<rparr>"
  let ?st = "toy_tracker [3]"
  have h1: "commands ?st AND 1 = 0" by (simp add: toy_fields)
  have h2: "(2 :: 32 word) AND 1 = 0" by simp
  have h3: "(1 :: 32 word) \<noteq> 0" by simp
  have h4: "commands (set_command 1 ?st) AND 1 \<noteq> 0"
    by (simp add: set_command_def toy_fields)
  have h5: "commands (round toy toy_settings ?st ?stop) AND 1 \<noteq> 0"
    by (simp add: round_sets_abort [of _ "[]"])
  have h6: "calls ?stop = [] @ [SetCommand 1]" by simp
  note A = run_until_abort [of ?st 1 toy toy_settings ?idle "[]" 2 "set_command 1 ?st" "[]" "[?idle]" "[?idle]"]
  note B = run_until_abort [of "set_command 1 ?st" 1 toy toy_settings ?idle "[?idle]" 2 "set_command 1 ?st" "[]" "[?idle]" "[?idle]"]
  note D = run_until_abort [of ?st 1 toy toy_settings ?stop "[?idle]" 2 "set_command 1 ?st" "[]" "[?idle]" "[?idle]"]
  from A h1 have c1: "run 1 toy toy_settings ?st [?idle] = run 1 toy toy_settings (round toy toy_settings ?st ?idle) []"
    by blast
  from A h1 h2 have c2: "run 1 toy toy_settings (set_command 2 ?st) [?idle]
     = run 1 toy toy_settings (round toy toy_settings (set_command 2 ?st) ?idle) []"
    by blast
  from B h4 have c3: "run 1 toy toy_settings (set_command 1 ?st) [?idle] = Some (set_command 1 ?st)"
    by blast
  from D h1 h5 have c5: "run 1 toy toy_settings ?st [?stop, ?idle] = Some (round toy toy_settings ?st ?stop)"
    by blast
  from D h3 h6 have c6: "\<exists>st. run 1 toy toy_settings ?st ([?idle] @ ?stop # [?idle]) = Some st"
    by blast
  from h1 h2 h3 c1 c2 h4 c3 h5 c5 h6 c6 show ?thesis
    by blast
qed

subsection \<open>Frames without three detections\<close>

lemma data_cong:
  "point_tracker st' = point_tracker st \<Longrightarrow> t_MH st' = t_MH st \<Longrightarrow> data k C st' d = data k C st d"
  by (simp add: data_def)

text \<open>
  Claim C4 as it is written fails on the parenthesis "a subsequent pose read returns the
  same value as before the iteration". A pass starts with \<^verbatim>\<open>apply_inner\<close>, and
  \<^verbatim>\<open>Tracker::data\<close> reads the offset \<open>t_MH\<close> that \<^verbatim>\<open>apply_inner\<close> sets: with settings
  pending whose offset is \<open>(50, 0, 0)\<close>, a stored pose that is the identity and a frame with
  two detections, the pass leaves the stored pose as it was, and \<^verbatim>\<open>data\<close> gives the
  translation 0 before the pass and 5 after it.
\<close>


theorem offset_change_counterexample:
  "get_frame toy 0 (camera (apply_inner toy toy_settings (tracker_apply 5 (toy_tracker [2]))))
     = ([], True, 2) \<and>
   \<not> frame_empty toy 2 \<and>
   extract_points toy (point_extractor (apply_inner toy toy_settings (tracker_apply 5 (toy_tracker [2])))) 2
     = ([Vec2f 0 0, Vec2f 1 0], 2) \<and>
   length [Vec2f 0 0, Vec2f 1 0] \<noteq> N_POINTS \<and>
   point_tracker (iteration toy toy_settings 0 (tracker_apply 5 (toy_tracker [2])))
     = point_tracker (tracker_apply 5 (toy_tracker [2])) \<and>
   data 57 toy (tracker_apply 5 (toy_tracker [2])) zeros TX = 0 \<and>
   data 57 toy (iteration toy toy_settings 0 (tracker_apply 5 (toy_tracker [2]))) zeros TX = 5"
proof -
  let ?st = "tracker_apply 5 (toy_tracker [2])"
  have g: "get_frame toy 0 (camera (apply_inner toy toy_settings ?st)) = ([], True, 2)"
    by (simp add: toy_apply_5 toy_fields toy_collab)
  have e: "extract_points toy (point_extractor (apply_inner toy toy_settings ?st)) 2 = ([Vec2f 0 0, Vec2f 1 0], 2)"
    by (simp add: toy_collab)
  have it: "iteration toy toy_settings 0 ?st
      = (apply_inner toy toy_settings ?st)\<lparr>camera := [],
          events := [ApplySettings 5, GetFrame 0, Lock, ExtractPoints 2, UpdateImage 2, Unlock]\<rparr>"
    using g by (simp add: iteration_def Let_def toy_collab process_frame_def N_POINTS_def) (simp add: toy_apply_5)
  have b: "data 57 toy ?st zeros TX = 0"
    by (simp add: data_TX tracker_apply_def toy_fields toy_collab mat_vec_def vec_add_def div_double_0)
  have a: "data 57 toy (iteration toy toy_settings 0 ?st) zeros TX = 5"
    by (simp add: data_TX it toy_apply_5 toy_fields toy_collab mat_vec_def vec_add_def eye_def div_double_50)
  have p: "point_tracker (iteration toy toy_settings 0 ?st) = point_tracker ?st"
    by (simp add: it toy_apply_5) (simp add: tracker_apply_def)
  from g e a b p show ?thesis
    by (simp add: toy_collab N_POINTS_def)
qed


text \<open>
  Claim C4, amended. In a pass of the loop that gets a frame which is not empty and in which
  the number of detections is not \<^verbatim>\<open>N_POINTS\<close>, the point tracker is not called and the
  stored pose is as it was, while the frame is given to the display; \<^verbatim>\<open>Tracker::data\<close>
  gives after the pass what it gave before it provided that the \<^verbatim>\<open>apply_inner\<close> of the
  pass has left the head-to-model offset as it was, as it does when no settings are pending.
  The stored pose changes in a pass only when the number of detections is \<^verbatim>\<open>N_POINTS\<close>.
\<close>


theorem short_detection_keeps_pose:
  assumes "get_frame C dt (camera (apply_inner C \<sigma> st)) = (cam, new_frame, fr)"
    and "extract_points C (point_extractor (apply_inner C \<sigma> st)) fr = (points, fr1)"
  shows "(new_frame \<and> \<not> frame_empty C fr \<and> length points \<noteq> N_POINTS \<longrightarrow>
            point_tracker (iteration C \<sigma> dt st) = point_tracker st \<and>
            events (iteration C \<sigma> dt st)
              = events (apply_inner C \<sigma> st)
                @ [GetFrame dt, Lock, ExtractPoints fr,
                   UpdateImage (foldl (\<lambda>f p. mark C p f) fr1 points), Unlock] \<and>
            (t_MH (apply_inner C \<sigma> st) = t_MH st \<longrightarrow>
               data rad2deg C (iteration C \<sigma> dt st) d = data rad2deg C st d)) \<and>
         (point_tracker (iteration C \<sigma> dt st) \<noteq> point_tracker st \<longrightarrow>
            new_frame \<and> \<not> frame_empty C fr \<and> length points = N_POINTS)"
proof -
  let ?a = "apply_inner C \<sigma> st"
  let ?st2 = "?a\<lparr>camera := cam, events := events ?a @ [GetFrame dt]\<rparr>"
  have it: "iteration C \<sigma> dt st = (if new_frame \<and> \<not> frame_empty C fr then process_frame C fr ?st2 else ?st2)"
    using assms(1) by (simp add: iteration_def Let_def)
  have ex: "extract_points C (point_extractor ?st2) fr = (points, fr1)"
    using assms(2) by simp
  have tm: "t_MH (iteration C \<sigma> dt st) = t_MH ?a"
    by (simp add: it process_frame_fields)
  have skip: "point_tracker (iteration C \<sigma> dt st) = point_tracker st"
    if "\<not> (new_frame \<and> \<not> frame_empty C fr \<and> length points = N_POINTS)"
    using that ex by (auto simp add: it process_frame_def Let_def apply_inner_fields)
  show ?thesis
  proof (intro conjI impI)
    assume h: "new_frame \<and> \<not> frame_empty C fr \<and> length points \<noteq> N_POINTS"
    then show pt: "point_tracker (iteration C \<sigma> dt st) = point_tracker st"
      by (intro skip) simp
    from h ex show "events (iteration C \<sigma> dt st)
              = events ?a @ [GetFrame dt, Lock, ExtractPoints fr,
                   UpdateImage (foldl (\<lambda>f p. mark C p f) fr1 points), Unlock]"
      by (simp add: it process_frame_def Let_def)
    assume "t_MH ?a = t_MH st"
    with tm pt show "data rad2deg C (iteration C \<sigma> dt st) d = data rad2deg C st d"
      by (intro data_cong) simp_all
  next
    assume "point_tracker (iteration C \<sigma> dt st) \<noteq> point_tracker st"
    with skip have c: "new_frame \<and> \<not> frame_empty C fr \<and> length points = N_POINTS"
      by blast
    from c show "new_frame" by simp
    from c show "\<not> frame_empty C fr" by simp
    from c show "length points = N_POINTS" by simp
  qed
qed


theorem short_detection_keeps_pose_witness:
  "get_frame toy 0 (camera (apply_inner toy toy_settings (toy_tracker [2]))) = ([], True, 2) \<and>
   extract_points toy (point_extractor (apply_inner toy toy_settings (toy_tracker [2]))) 2
     = ([Vec2f 0 0, Vec2f 1 0], 2) \<and>
   \<not> frame_empty toy 2 \<and>
   length [Vec2f 0 0, Vec2f 1 0] \<noteq> N_POINTS \<and>
   t_MH (apply_inner toy toy_settings (toy_tracker [2])) = t_MH (toy_tracker [2]) \<and>
   point_tracker (iteration toy toy_settings 0 (toy_tracker [2])) = point_tracker (toy_tracker [2]) \<and>
   events (iteration toy toy_settings 0 (toy_tracker [2]))
     = [GetFrame 0, Lock, ExtractPoints 2, UpdateImage 2, Unlock] \<and>
   data 57 toy (iteration toy toy_settings 0 (toy_tracker [2])) zeros = data 57 toy (toy_tracker [2]) zeros \<and>
   point_tracker (iteration toy toy_settings 0 (toy_tracker [3])) \<noteq> point_tracker (toy_tracker [3]) \<and>
   length [Vec2f 0 0, Vec2f 1 0, Vec2f 2 0] = N_POINTS"
proof -
  have a: "apply_inner toy toy_settings (toy_tracker cam) = toy_tracker cam" for cam
    by (simp add: apply_inner_None toy_fields)
  have g2: "get_frame toy 0 (camera (apply_inner toy toy_settings (toy_tracker [2]))) = ([], True, 2)"
    by (simp add: a toy_fields toy_collab)
  have e2: "extract_points toy (point_extractor (apply_inner toy toy_settings (toy_tracker [2]))) 2
     = ([Vec2f 0 0, Vec2f 1 0], 2)"
    by (simp add: toy_collab)
  have h2: "True \<and> \<not> frame_empty toy 2 \<and> length [Vec2f 0 0, Vec2f 1 0] \<noteq> N_POINTS"
    by (simp add: toy_collab N_POINTS_def)
  have t2: "t_MH (apply_inner toy toy_settings (toy_tracker [2])) = t_MH (toy_tracker [2])"
    by (simp add: a)
  note T2 = short_detection_keeps_pose [OF g2 e2, of 57 zeros]
  from T2 h2 have c1: "point_tracker (iteration toy toy_settings 0 (toy_tracker [2])) = point_tracker (toy_tracker [2])"
    by blast
  from T2 h2 have "events (iteration toy toy_settings 0 (toy_tracker [2]))
     = events (apply_inner toy toy_settings (toy_tracker [2]))
       @ [GetFrame 0, Lock, ExtractPoints 2, UpdateImage (foldl (\<lambda>f p. mark toy p f) 2 [Vec2f 0 0, Vec2f 1 0]), Unlock]"
    by blast
  then have c2: "events (iteration toy toy_settings 0 (toy_tracker [2]))
     = [GetFrame 0, Lock, ExtractPoints 2, UpdateImage 2, Unlock]"
    by (simp add: a toy_fields toy_collab)
  from T2 h2 t2 have c3: "data 57 toy (iteration toy toy_settings 0 (toy_tracker [2])) zeros = data 57 toy (toy_tracker [2]) zeros"
    by blast
  have g3: "get_frame toy 0 (camera (apply_inner toy toy_settings (toy_tracker [3]))) = ([], True, 3)"
    by (simp add: a toy_fields toy_collab)
  have e3: "extract_points toy (point_extractor (apply_inner toy toy_settings (toy_tracker [3]))) 3
     = ([Vec2f 0 0, Vec2f 1 0, Vec2f 2 0], 3)"
    by (simp add: toy_collab)
  have "point_tracker (iteration toy toy_settings 0 (toy_tracker [3])) = Affine eye (Vec3f 10 20 30)"
    using g3 by (simp add: iteration_def Let_def process_frame_def toy_collab N_POINTS_def)
       (simp add: a toy_fields)
  then have h3: "point_tracker (iteration toy toy_settings 0 (toy_tracker [3])) \<noteq> point_tracker (toy_tracker [3])"
    by (simp add: toy_fields)
  note T3 = short_detection_keeps_pose [OF g3 e3, of 57 zeros]
  from T3 h3 have c4: "length [Vec2f 0 0, Vec2f 1 0, Vec2f 2 0] = N_POINTS"
    by blast
  from g2 e2 h2 t2 c1 c2 c3 h3 c4 show ?thesis
    by blast
qed

subsection \<open>PAUSE\<close>

text \<open>The body of the loop does not read \<open>commands\<close>.\<close>


lemma configure_commands:
  "configure C c (st\<lparr>commands := w\<rparr>) = (configure C c st)\<lparr>commands := w\<rparr>"
  by (simp add: configure_def Let_def)

lemma apply_inner_commands:
  "apply_inner C \<sigma> (st\<lparr>commands := w\<rparr>) = (apply_inner C \<sigma> st)\<lparr>commands := w\<rparr>"
  by (simp add: apply_inner_def configure_def Let_def split: option.split)

lemma process_frame_commands:
  "process_frame C fr (st\<lparr>commands := w\<rparr>) = (process_frame C fr st)\<lparr>commands := w\<rparr>"
  by (simp add: process_frame_def Let_def split: prod.split)

lemma iteration_commands:
  "iteration C \<sigma> dt (st\<lparr>commands := w\<rparr>) = (iteration C \<sigma> dt st)\<lparr>commands := w\<rparr>"
proof -
  obtain cam nf fr where g: "get_frame C dt (camera (apply_inner C \<sigma> st)) = (cam, nf, fr)"
    by (cases "get_frame C dt (camera (apply_inner C \<sigma> st))") auto
  let ?a = "apply_inner C \<sigma> st"
  have u: "?a\<lparr>commands := w\<rparr>\<lparr>camera := cam, events := events ?a @ [GetFrame dt]\<rparr>
         = ?a\<lparr>camera := cam, events := events ?a @ [GetFrame dt]\<rparr>\<lparr>commands := w\<rparr>"
    by simp
  show ?thesis
    unfolding iteration_def apply_inner_commands Let_def
    using g by (simp del: Tracker.simps add: u process_frame_commands)
qed

lemma same_but_commands:
  assumes "reset_command P st1 = reset_command P st2"
  shows "st1 = st2\<lparr>commands := commands st1\<rparr>" and "commands st1 AND NOT P = commands st2 AND NOT P"
proof -
  from assms have e: "st1\<lparr>commands := commands st1 AND NOT P\<rparr> = st2\<lparr>commands := commands st2 AND NOT P\<rparr>"
    by (simp add: reset_command_def)
  then have "(st1\<lparr>commands := commands st1 AND NOT P\<rparr>)\<lparr>commands := commands st1\<rparr>
      = (st2\<lparr>commands := commands st2 AND NOT P\<rparr>)\<lparr>commands := commands st1\<rparr>"
    by simp
  then show "st1 = st2\<lparr>commands := commands st1\<rparr>"
    by simp
  from e have "commands (st1\<lparr>commands := commands st1 AND NOT P\<rparr>) = commands (st2\<lparr>commands := commands st2 AND NOT P\<rparr>)"
    by simp
  then show "commands st1 AND NOT P = commands st2 AND NOT P"
    by simp
qed

lemma iteration_blind:
  assumes "reset_command P st1 = reset_command P st2"
  shows "reset_command P (iteration C \<sigma> dt st1) = reset_command P (iteration C \<sigma> dt st2)"
proof -
  from same_but_commands [OF assms]
  have a: "st1 = st2\<lparr>commands := commands st1\<rparr>" and b: "commands st1 AND NOT P = commands st2 AND NOT P"
    by simp_all
  have "iteration C \<sigma> dt st1 = (iteration C \<sigma> dt st2)\<lparr>commands := commands st1\<rparr>"
    by (subst a) (rule iteration_commands)
  then show ?thesis
    using b by (simp add: reset_command_def iteration_fields)
qed

lemma owner_blind:
  assumes "reset_command P st1 = reset_command P st2"
  shows "reset_command P (owner c st1) = reset_command P (owner c st2)"
proof -
  from same_but_commands [OF assms]
  have a: "st1 = st2\<lparr>commands := commands st1\<rparr>" and b: "commands st1 AND NOT P = commands st2 AND NOT P"
    by simp_all
  show ?thesis
  proof (cases c)
    case (SetCommand w)
    have "owner c st1 = (owner c st2)\<lparr>commands := commands st1 OR w\<rparr>"
      by (subst a) (simp add: SetCommand set_command_def)
    then show ?thesis
      using word_or_clear [OF b, of w] by (simp add: reset_command_def SetCommand set_command_def)
  next
    case (ResetCommand w)
    have "owner c st1 = (owner c st2)\<lparr>commands := commands st1 AND NOT w\<rparr>"
      by (subst a) (simp add: ResetCommand reset_command_def)
    then show ?thesis
      using word_and_clear [OF b, of w] by (simp add: reset_command_def ResetCommand)
  next
    case (Apply x)
    have "owner c st1 = (owner c st2)\<lparr>commands := commands st1\<rparr>"
      by (subst a) (simp add: Apply tracker_apply_def)
    then show ?thesis
      using b by (simp add: reset_command_def Apply tracker_apply_def)
  qed
qed

lemma owner_on_bits: "on_bits P c \<Longrightarrow> reset_command P (owner c st) = reset_command P st"
  by (cases c) (simp_all add: reset_command_def set_command_def word_or_self_clear word_clear_twice)

lemma owner_calls_blind:
  "reset_command P st1 = reset_command P st2 \<Longrightarrow>
     reset_command P (owner_calls cs st1) = reset_command P (owner_calls cs st2)"
proof (induction cs arbitrary: st1 st2)
  case Nil
  then show ?case by (simp only: owner_calls_Nil)
next
  case (Cons c cs)
  have "reset_command P (owner c st1) = reset_command P (owner c st2)"
    by (rule owner_blind [OF Cons.prems])
  then show ?case
    unfolding owner_calls_Cons by (rule Cons.IH)
qed

lemma owner_calls_filter:
  "reset_command P (owner_calls cs st) = reset_command P (owner_calls (filter (\<lambda>c. \<not> on_bits P c) cs) st)"
proof (induction cs arbitrary: st)
  case Nil
  show ?case by simp
next
  case (Cons c cs)
  show ?case
  proof (cases "on_bits P c")
    case True
    have "reset_command P (owner_calls cs (owner c st)) = reset_command P (owner_calls cs st)"
      by (rule owner_calls_blind) (rule owner_on_bits [OF True])
    then show ?thesis
      using True Cons by (simp add: owner_calls_Cons)
  next
    case False
    then show ?thesis
      using Cons by (simp add: owner_calls_Cons)
  qed
qed

lemma round_blind:
  assumes "reset_command P st1 = reset_command P st2"
    and "without_calls P r1 = without_calls P r2"
  shows "reset_command P (round C \<sigma> st1 r1) = reset_command P (round C \<sigma> st2 r2)"
proof -
  from assms(2) have "elapsed (without_calls P r1) = elapsed (without_calls P r2)"
    and "calls (without_calls P r1) = calls (without_calls P r2)"
    by simp_all
  then have e: "elapsed r1 = elapsed r2"
    and f: "filter (\<lambda>c. \<not> on_bits P c) (calls r1) = filter (\<lambda>c. \<not> on_bits P c) (calls r2)"
    by (simp_all add: without_calls_def)
  let ?i1 = "iteration C \<sigma> (elapsed r1) st1" and ?i2 = "iteration C \<sigma> (elapsed r2) st2"
  have i: "reset_command P ?i1 = reset_command P ?i2"
    unfolding e by (rule iteration_blind [OF assms(1)])
  have "reset_command P (owner_calls (calls r1) ?i1)
      = reset_command P (owner_calls (filter (\<lambda>c. \<not> on_bits P c) (calls r1)) ?i1)"
    by (rule owner_calls_filter)
  also have "\<dots> = reset_command P (owner_calls (filter (\<lambda>c. \<not> on_bits P c) (calls r1)) ?i2)"
    by (rule owner_calls_blind [OF i])
  also have "\<dots> = reset_command P (owner_calls (calls r2) ?i2)"
    unfolding f by (rule owner_calls_filter [symmetric])
  finally show ?thesis
    by (simp add: round_def)
qed

lemma abort_blind:
  "PAUSE AND ABORT = 0 \<Longrightarrow> reset_command PAUSE st1 = reset_command PAUSE st2 \<Longrightarrow>
     commands st1 AND ABORT = commands st2 AND ABORT"
proof -
  assume d: "PAUSE AND ABORT = 0" and e: "reset_command PAUSE st1 = reset_command PAUSE st2"
  have "commands st1 AND NOT PAUSE = commands st2 AND NOT PAUSE"
    by (rule same_but_commands(2) [OF e])
  then have "(commands st1 AND NOT PAUSE) AND ABORT = (commands st2 AND NOT PAUSE) AND ABORT"
    by simp
  then show ?thesis
    by (simp only: word_clear_disjoint [OF d])
qed

lemma run_blind:
  "PAUSE AND ABORT = 0 \<Longrightarrow> reset_command PAUSE st1 = reset_command PAUSE st2 \<Longrightarrow>
   map (without_calls PAUSE) rs1 = map (without_calls PAUSE) rs2 \<Longrightarrow>
   map_option (reset_command PAUSE) (run ABORT C \<sigma> st1 rs1)
     = map_option (reset_command PAUSE) (run ABORT C \<sigma> st2 rs2)"
proof (induction rs1 arbitrary: rs2 st1 st2)
  case Nil
  from Nil.prems(3) have rs2: "rs2 = []" by simp
  have c: "commands st1 AND ABORT = commands st2 AND ABORT"
    by (rule abort_blind [OF Nil.prems(1) Nil.prems(2)])
  show ?case
  proof (cases "commands st1 AND ABORT = 0")
    case True
    with c have "commands st2 AND ABORT = 0" by simp
    with True show ?thesis unfolding rs2 by simp
  next
    case False
    with c have "commands st2 AND ABORT \<noteq> 0" by simp
    with False have "run ABORT C \<sigma> st1 [] = Some st1" and "run ABORT C \<sigma> st2 [] = Some st2"
      by simp_all
    then show ?thesis unfolding rs2 by (simp only: option.map Nil.prems(2))
  qed
next
  case (Cons r1 rs1)
  from Cons.prems(3) obtain r2 rs2' where rs2: "rs2 = r2 # rs2'"
    and r: "without_calls PAUSE r1 = without_calls PAUSE r2"
    and rs: "map (without_calls PAUSE) rs1 = map (without_calls PAUSE) rs2'"
    by (cases rs2) auto
  have c: "commands st1 AND ABORT = commands st2 AND ABORT"
    by (rule abort_blind [OF Cons.prems(1) Cons.prems(2)])
  show ?case
  proof (cases "commands st1 AND ABORT = 0")
    case True
    with c have t2: "commands st2 AND ABORT = 0" by simp
    have "reset_command PAUSE (round C \<sigma> st1 r1) = reset_command PAUSE (round C \<sigma> st2 r2)"
      by (rule round_blind [OF Cons.prems(2) r])
    from Cons.IH [OF Cons.prems(1) this rs]
    have "map_option (reset_command PAUSE) (run ABORT C \<sigma> (round C \<sigma> st1 r1) rs1)
        = map_option (reset_command PAUSE) (run ABORT C \<sigma> (round C \<sigma> st2 r2) rs2')" .
    moreover have "run ABORT C \<sigma> st1 (r1 # rs1) = run ABORT C \<sigma> (round C \<sigma> st1 r1) rs1"
      using True by simp
    moreover have "run ABORT C \<sigma> st2 (r2 # rs2') = run ABORT C \<sigma> (round C \<sigma> st2 r2) rs2'"
      using t2 by simp
    ultimately show ?thesis unfolding rs2 by (simp only:)
  next
    case False
    with c have "commands st2 AND ABORT \<noteq> 0" by simp
    with False have "run ABORT C \<sigma> st1 (r1 # rs1) = Some st1"
      and "run ABORT C \<sigma> st2 (r2 # rs2') = Some st2"
      by simp_all
    then show ?thesis unfolding rs2 by (simp only: option.map Cons.prems(2))
  qed
qed

lemma events_reset_command: "events (reset_command P st) = events st"
  by (simp add: reset_command_def)


text \<open>
  Claim C9. \<^verbatim>\<open>PAUSE\<close> has no effect on the loop: two runs from states that differ in the
  bits of \<^verbatim>\<open>PAUSE\<close> only, with the same rounds but for the calls that set or reset
  \<^verbatim>\<open>PAUSE\<close>, both end or both go on, and when they end they have recorded the same
  settings applied, frames fetched, points extracted, poses updated and frames displayed,
  and they end in the same state but for the bits of \<^verbatim>\<open>PAUSE\<close>. \<^verbatim>\<open>PAUSE\<close> and
  \<^verbatim>\<open>ABORT\<close> are taken to have no bit in common.
\<close>


theorem pause_is_ignored:
  assumes "PAUSE AND ABORT = 0"
    and "reset_command PAUSE st1 = reset_command PAUSE st2"
    and "map (without_calls PAUSE) rs1 = map (without_calls PAUSE) rs2"
  shows "map_option (reset_command PAUSE) (run ABORT C \<sigma> st1 rs1)
           = map_option (reset_command PAUSE) (run ABORT C \<sigma> st2 rs2) \<and>
         map_option events (run ABORT C \<sigma> st1 rs1) = map_option events (run ABORT C \<sigma> st2 rs2)"
proof -
  have a: "map_option (reset_command PAUSE) (run ABORT C \<sigma> st1 rs1)
           = map_option (reset_command PAUSE) (run ABORT C \<sigma> st2 rs2)"
    by (rule run_blind [OF assms])
  then have "map_option events (map_option (reset_command PAUSE) (run ABORT C \<sigma> st1 rs1))
           = map_option events (map_option (reset_command PAUSE) (run ABORT C \<sigma> st2 rs2))"
    by simp
  then have "map_option events (run ABORT C \<sigma> st1 rs1) = map_option events (run ABORT C \<sigma> st2 rs2)"
    by (simp add: option.map_comp comp_def events_reset_command)
  with a show ?thesis by simp
qed


theorem pause_is_ignored_witness:
  "(2 :: 32 word) AND 1 = 0 \<and>
   reset_command 2 (StopTracker 2 (toy_tracker [3, 2])) = reset_command 2 (toy_tracker [3, 2]) \<and>
   map (without_calls 2)
       [\<lparr>elapsed = 0, calls = [ResetCommand 2, SetCommand 2]\<rparr>, \<lparr>elapsed = 1, calls = [SetCommand 1]\<rparr>]
     = map (without_calls 2) [\<lparr>elapsed = 0, calls = []\<rparr>, \<lparr>elapsed = 1, calls = [SetCommand 1]\<rparr>] \<and>
   map_option events (run 1 toy toy_settings (StopTracker 2 (toy_tracker [3, 2]))
       [\<lparr>elapsed = 0, calls = [ResetCommand 2, SetCommand 2]\<rparr>, \<lparr>elapsed = 1, calls = [SetCommand 1]\<rparr>])
     = map_option events (run 1 toy toy_settings (toy_tracker [3, 2])
       [\<lparr>elapsed = 0, calls = []\<rparr>, \<lparr>elapsed = 1, calls = [SetCommand 1]\<rparr>])"
proof -
  have h1: "(2 :: 32 word) AND 1 = 0" by simp
  have h2: "reset_command 2 (StopTracker 2 (toy_tracker [3, 2])) = reset_command 2 (toy_tracker [3, 2])"
    by (simp add: StopTracker_def set_command_def reset_command_def toy_fields)
  have h3: "map (without_calls 2)
       [\<lparr>elapsed = 0, calls = [ResetCommand 2, SetCommand 2]\<rparr>, \<lparr>elapsed = 1, calls = [SetCommand 1]\<rparr>]
     = map (without_calls 2) [\<lparr>elapsed = 0, calls = []\<rparr>, \<lparr>elapsed = 1, calls = [SetCommand 1]\<rparr>]"
    by (simp add: without_calls_def)
  from pause_is_ignored [OF h1 h2 h3, of toy toy_settings] h1 h2 h3 show ?thesis
    by blast
qed

subsection \<open>The destructor\<close>

text \<open>
  Claim C10. The destructor dereferences \<^verbatim>\<open>video_frame\<close>: it fails exactly when that
  pointer is null. The constructor sets it to null and no call of the owner but
  \<^verbatim>\<open>start_tracker\<close> changes it, so destroying a tracker that was never started dereferences
  a null pointer; \<^verbatim>\<open>start_tracker\<close> with a null window fails itself; after
  \<^verbatim>\<open>start_tracker\<close> with a window, whatever the owner calls and the loop do, the
  destructor passes line 36.
\<close>


theorem destroy_needs_start:
  "(destroy ABORT st = Inl NullDereference \<longleftrightarrow> video_frame st = None) \<and>
   destroy ABORT (owner_calls cs (Tracker_new st0)) = Inl NullDereference \<and>
   start_tracker C \<sigma> None st = Inl NullDereference \<and>
   (start_tracker C \<sigma> (Some w) st = Inr st1 \<and> run ABORT C \<sigma> (owner_calls cs st1) rs = Some st2 \<longrightarrow>
      destroy ABORT (owner_calls cs' st2)
        = Inr ((set_command ABORT (owner_calls cs' st2))\<lparr>video_widget := None\<rparr>))"
proof (intro conjI impI)
  show "destroy ABORT st = Inl NullDereference \<longleftrightarrow> video_frame st = None"
    by (simp add: destroy_def set_command_def Let_def split: option.split)
  show "destroy ABORT (owner_calls cs (Tracker_new st0)) = Inl NullDereference"
    by (simp add: destroy_def set_command_def Let_def owner_calls_video_frame Tracker_new_def)
  show "start_tracker C \<sigma> None st = Inl NullDereference"
    by (simp add: start_tracker_def)
next
  assume h: "start_tracker C \<sigma> (Some w) st = Inr st1 \<and> run ABORT C \<sigma> (owner_calls cs st1) rs = Some st2"
  then have "video_frame st1 = Some w"
    by (auto simp add: start_tracker_def Let_def apply_inner_fields tracker_apply_def)
  moreover from h have "video_frame st2 = video_frame (owner_calls cs st1)"
    by (auto dest: run_video_frame)
  ultimately have "video_frame (owner_calls cs' st2) = Some w"
    by (simp add: owner_calls_video_frame)
  then show "destroy ABORT (owner_calls cs' st2)
        = Inr ((set_command ABORT (owner_calls cs' st2))\<lparr>video_widget := None\<rparr>)"
    by (simp add: destroy_def set_command_def Let_def)
qed


theorem destroy_needs_start_witness:
  "destroy 1 (toy_tracker [3]) = Inl NullDereference \<and>
   (\<exists>st1. start_tracker toy toy_settings (Some 7) (toy_tracker [3]) = Inr st1 \<and>
      run 1 toy toy_settings (owner_calls [SetCommand 1] st1) [] = Some (owner_calls [SetCommand 1] st1) \<and>
      destroy 1 (owner_calls [] (owner_calls [SetCommand 1] st1))
        = Inr ((set_command 1 (owner_calls [] (owner_calls [SetCommand 1] st1)))\<lparr>video_widget := None\<rparr>))"
proof -
  obtain st1 where s: "start_tracker toy toy_settings (Some 7) (toy_tracker [3]) = Inr st1"
    by (simp add: start_tracker_def Let_def)
  have r: "run 1 toy toy_settings (owner_calls [SetCommand 1] st1) [] = Some (owner_calls [SetCommand 1] st1)"
    by (simp add: owner_calls_def set_command_def word_set_and)
  note T = destroy_needs_start [of 1 "toy_tracker [3]" "[SetCommand 1]" "toy_tracker [3]" toy toy_settings 7 st1 "[]"
      "owner_calls [SetCommand 1] st1" "[]"]
  from T have a: "destroy 1 (toy_tracker [3]) = Inl NullDereference"
    by (simp add: toy_fields)
  from T s r have b: "destroy 1 (owner_calls [] (owner_calls [SetCommand 1] st1))
        = Inr ((set_command 1 (owner_calls [] (owner_calls [SetCommand 1] st1)))\<lparr>video_widget := None\<rparr>)"
    by blast
  from a s r b show ?thesis
    by blast
qed

subsection \<open>The mutex and the pose\<close>

text \<open>
  The worker touches the pose with the mutex held: in what a run of the loop records, every
  update of the pose stands between a \<open>Lock\<close> and its \<open>Unlock\<close>.
\<close>


lemma pose_guarded_append:
  "pose_guarded n (xs @ ys) = (pose_guarded n xs \<and> pose_guarded (held n xs) ys)"
  by (induction n xs rule: pose_guarded.induct) simp_all

lemma held_append: "held n (xs @ ys) = held (held n xs) ys"
  by (induction n xs rule: held.induct) simp_all

lemma process_frame_events:
  "\<exists>es. events (process_frame C fr st) = events st @ es \<and> pose_guarded 0 es \<and> held 0 es = 0"
  by (simp add: process_frame_def Let_def split: prod.split)

lemma apply_inner_events:
  "\<exists>es. events (apply_inner C \<sigma> st) = events st @ es \<and> pose_guarded 0 es \<and> held 0 es = 0"
  by (simp add: apply_inner_def Let_def configure_fields split: option.split)

lemma iteration_events:
  "\<exists>es. events (iteration C \<sigma> dt st) = events st @ es \<and> pose_guarded 0 es \<and> held 0 es = 0"
proof -
  from apply_inner_events [of C \<sigma> st]
  obtain e1 where 1: "events (apply_inner C \<sigma> st) = events st @ e1" "pose_guarded 0 e1" "held 0 e1 = 0"
    by (elim exE conjE)
  obtain cam nf fr where g: "get_frame C dt (camera (apply_inner C \<sigma> st)) = (cam, nf, fr)"
    by (cases "get_frame C dt (camera (apply_inner C \<sigma> st))") auto
  let ?st2 = "(apply_inner C \<sigma> st)\<lparr>camera := cam, events := events (apply_inner C \<sigma> st) @ [GetFrame dt]\<rparr>"
  have 2: "events ?st2 = events st @ (e1 @ [GetFrame dt])" using 1 by simp
  have g2: "pose_guarded 0 (e1 @ [GetFrame dt])" "held 0 (e1 @ [GetFrame dt]) = 0"
    using 1 by (simp_all add: pose_guarded_append held_append)
  show ?thesis
  proof (cases "nf \<and> \<not> frame_empty C fr")
    case True
    from process_frame_events [of C fr ?st2]
    obtain e3 where 3: "events (process_frame C fr ?st2) = events ?st2 @ e3" "pose_guarded 0 e3" "held 0 e3 = 0"
      by (elim exE conjE)
    have "iteration C \<sigma> dt st = process_frame C fr ?st2"
      using True g by (simp add: iteration_def Let_def)
    then have "events (iteration C \<sigma> dt st) = events st @ ((e1 @ [GetFrame dt]) @ e3)"
      using 3 2 by simp
    moreover have "pose_guarded 0 ((e1 @ [GetFrame dt]) @ e3)" "held 0 ((e1 @ [GetFrame dt]) @ e3) = 0"
      using g2 3 by (simp_all only: pose_guarded_append held_append simp_thms)
    ultimately show ?thesis by blast
  next
    case False
    have "iteration C \<sigma> dt st = ?st2"
      using False g by (auto simp add: iteration_def Let_def)
    then show ?thesis using 2 g2 by metis
  qed
qed

lemma owner_events: "events (owner c st) = events st"
  by (cases c) (simp_all add: set_command_def reset_command_def tracker_apply_def)

lemma owner_calls_events: "events (owner_calls cs st) = events st"
  by (induction cs arbitrary: st) (simp_all add: owner_calls_Nil owner_calls_Cons owner_events)

lemma round_guarded:
  assumes "pose_guarded 0 (events st)" "held 0 (events st) = 0"
  shows "pose_guarded 0 (events (round C \<sigma> st r)) \<and> held 0 (events (round C \<sigma> st r)) = 0"
proof -
  from iteration_events [of C \<sigma> "elapsed r" st]
  obtain es where "events (iteration C \<sigma> (elapsed r) st) = events st @ es" "pose_guarded 0 es" "held 0 es = 0"
    by (elim exE conjE)
  then show ?thesis
    using assms by (simp add: round_def owner_calls_events pose_guarded_append held_append)
qed

lemma worker_holds_mutex:
  "pose_guarded 0 (events st) \<Longrightarrow> held 0 (events st) = 0 \<Longrightarrow> run ABORT C \<sigma> st rs = Some st' \<Longrightarrow>
     pose_guarded 0 (events st') \<and> held 0 (events st') = 0"
proof (induction rs arbitrary: st)
  case Nil
  then show ?case by (simp split: if_splits)
next
  case (Cons r rs)
  show ?case
  proof (cases "commands st AND ABORT = 0")
    case True
    with Cons.prems(3) have "run ABORT C \<sigma> (round C \<sigma> st r) rs = Some st'" by simp
    moreover have "pose_guarded 0 (events (round C \<sigma> st r))" "held 0 (events (round C \<sigma> st r)) = 0"
      using round_guarded [OF Cons.prems(1) Cons.prems(2)] by simp_all
    ultimately show ?thesis using Cons.IH by blast
  next
    case False
    with Cons.prems show ?thesis by simp
  qed
qed


text \<open>
  Claim C2 says that \<^verbatim>\<open>Tracker::data\<close> holds the mutex of the worker for the whole read
  of the pose. The code reads the pose at line 163 and takes the mutex at line 184 only:
  with the worker inside its locked block (lines 69 to 90, where \<^verbatim>\<open>track\<close> updates the
  pose), a call of \<^verbatim>\<open>data\<close> reads the pose without waiting, the mutex being owned by the
  worker; run alone, it reads the pose and the offset with the mutex free. The events of
  \<^verbatim>\<open>data\<close> are not guarded, those of the worker's block are.
\<close>


theorem data_reads_pose_unlocked:
  "events (process_frame toy 3 (toy_tracker []))
     = [Lock, ExtractPoints 3, Track [Vec2f 0 0, Vec2f 1 0, Vec2f 2 0], UpdateImage 3, Unlock] \<and>
   exec [Worker, Worker, Reader] (events (process_frame toy 3 (toy_tracker []))) data_events None
     = Some [(Worker, Lock, None), (Worker, ExtractPoints 3, Some (Worker, 1)),
             (Reader, ReadPose, Some (Worker, 1))] \<and>
   exec [Reader, Reader] (events (process_frame toy 3 (toy_tracker []))) data_events None
     = Some [(Reader, ReadPose, None), (Reader, ReadOffset, None)] \<and>
   \<not> pose_guarded 0 (data_events :: nat event list) \<and>
   pose_guarded 0 (events (process_frame toy 3 (toy_tracker [])))"
proof -
  have e: "events (process_frame toy 3 (toy_tracker []))
     = [Lock, ExtractPoints 3, Track [Vec2f 0 0, Vec2f 1 0, Vec2f 2 0], UpdateImage 3, Unlock]"
    by (simp add: process_frame_def toy_def toy_tracker_def Tracker_new_def N_POINTS_def Let_def upt_rec)
  show ?thesis
    unfolding e by (simp add: data_events_def)
qed

end
